theory Spec2Isabelle
  imports Complex_Main "HOL-Library.Sublist"
begin

section \<open>JavaScript strings and arrays\<close>

text \<open>
  Strings are lists of 8-bit code units read as Latin-1, so every function below is the
  JavaScript one on text whose UTF-16 code units are below 256.
\<close>

definition code_unit :: "char \<Rightarrow> nat" where
  "code_unit c = of_char c"

definition is_upper :: "char \<Rightarrow> bool" where
  "is_upper c =
     (let n = code_unit c
      in (65 \<le> n \<and> n \<le> 90) \<or> (192 \<le> n \<and> n \<le> 222 \<and> n \<noteq> 215))"

text \<open>Upper-case letters differ from their lower-case forms by 32, which is bit 5.\<close>

fun set_bit5 :: "char \<Rightarrow> char" where
  "set_bit5 (Char b0 b1 b2 b3 b4 b5 b6 b7) = Char b0 b1 b2 b3 b4 True b6 b7"

definition lower_char :: "char \<Rightarrow> char" where
  "lower_char c = (if is_upper c then set_bit5 c else c)"

definition toLowerCase :: "string \<Rightarrow> string" where
  "toLowerCase s = map lower_char s"

text \<open>The class \<open>\s\<close> (also what \<open>trim\<close> removes): TAB, LF, VT, FF, CR, space, NBSP.\<close>

definition is_space :: "char \<Rightarrow> bool" where
  "is_space c = (code_unit c \<in> {9, 10, 11, 12, 13, 32, 160})"

text \<open>The class \<open>\w\<close>: ASCII letters, digits and the underscore.\<close>

definition is_digit :: "char \<Rightarrow> bool" where
  "is_digit c = (let n = code_unit c in 48 \<le> n \<and> n \<le> 57)"

definition is_word_char :: "char \<Rightarrow> bool" where
  "is_word_char c =
     (let n = code_unit c
      in (65 \<le> n \<and> n \<le> 90) \<or> (97 \<le> n \<and> n \<le> 122) \<or> (48 \<le> n \<and> n \<le> 57) \<or> n = 95)"

definition is_line_terminator :: "char \<Rightarrow> bool" where
  "is_line_terminator c = (code_unit c \<in> {10, 13})"

definition trim :: "string \<Rightarrow> string" where
  "trim s = rev (dropWhile is_space (rev (dropWhile is_space s)))"

text \<open>\<open>s.includes(t)\<close>: \<open>t\<close> occurs in \<open>s\<close> as a contiguous substring.\<close>

fun str_includes :: "string \<Rightarrow> string \<Rightarrow> bool" where
  "str_includes [] t = (t = [])"
| "str_includes (c # cs) t = (prefix t (c # cs) \<or> str_includes cs t)"

text \<open>\<open>xs.includes(x)\<close> on an array.\<close>

definition arr_includes :: "'a list \<Rightarrow> 'a \<Rightarrow> bool" where
  "arr_includes xs x = (x \<in> set xs)"

text \<open>
  \<open>s.split(/\s+/)\<close>: the pieces between maximal runs of white space; a run at either end
  leaves an empty piece there. The flag says that the previous character was white space.
\<close>

fun split_ws_from :: "bool \<Rightarrow> string \<Rightarrow> string list" where
  "split_ws_from in_run [] = [Nil]"
| "split_ws_from in_run (c # cs) =
     (if is_space c then
        (if in_run then split_ws_from True cs else [] # split_ws_from True cs)
      else
        (case split_ws_from False cs of
           [] \<Rightarrow> [c # Nil]
         | t # ts \<Rightarrow> (c # t) # ts))"

definition split_ws :: "string \<Rightarrow> string list" where
  "split_ws s = split_ws_from False s"

text \<open>\<open>s.split(' ')\<close>: the pieces between single space characters.\<close>

fun split_space :: "string \<Rightarrow> string list" where
  "split_space [] = [Nil]"
| "split_space (c # cs) =
     (if c = CHR '' '' then [] # split_space cs
      else
        (case split_space cs of
           [] \<Rightarrow> [c # Nil]
         | t # ts \<Rightarrow> (c # t) # ts))"

text \<open>\<open>s.replace(/[^\w\s]/g, ' ')\<close>\<close>

definition replace_punct :: "string \<Rightarrow> string" where
  "replace_punct s = map (\<lambda>c. if is_word_char c \<or> is_space c then c else CHR '' '') s"

text \<open>\<open>[...new Set(xs)]\<close>: the first occurrence of every element, in order.\<close>

function uniq :: "'a list \<Rightarrow> 'a list" where
  "uniq [] = []"
| "uniq (x # xs) = x # uniq (removeAll x xs)"
  by pat_completeness auto
termination
  by (relation "measure length") (auto simp: less_Suc_eq_le length_removeAll_less_eq)

section \<open>JavaScript numbers\<close>

text \<open>
  A JavaScript number is an IEEE 754 double. A number is modelled by the real value of
  the double, and every literal, sum and product is rounded to the nearest double, ties to
  the even significand, as the language does. Integers below \<open>2 ^ 53\<close> are doubles, so the
  length of an array is converted without rounding; the integer scores of the search
  handler stay in this range and are kept as \<open>int\<close>. Comparison, \<open>Math.min\<close> and the sign of
  a difference of two doubles are exact. Overflow and subnormal numbers are not modelled:
  the numbers below are 0 or lie between \<open>2 ^ -1022\<close> and \<open>2 ^ 1024\<close>.

  \<open>halvings x\<close> and \<open>doublings x\<close> find the binary exponent of a positive \<open>x\<close>, and
  \<open>ulp x\<close> is the distance between neighbouring doubles around \<open>x\<close>: a double has a
  significand of 53 bits.
\<close>

function halvings :: "real \<Rightarrow> nat" where
  "halvings x = (if x < 2 then 0 else Suc (halvings (x / 2)))"
  by pat_completeness auto
termination
proof (relation "measure (\<lambda>x. nat \<lfloor>x\<rfloor>)")
  show "wf (measure (\<lambda>x. nat \<lfloor>x\<rfloor>))" by simp
next
  fix x :: real
  assume "\<not> x < 2"
  then have "\<lfloor>x / 2\<rfloor> < \<lfloor>x\<rfloor>" and "0 < \<lfloor>x\<rfloor>" by linarith+
  then show "(x / 2, x) \<in> measure (\<lambda>x. nat \<lfloor>x\<rfloor>)" by simp
qed

declare halvings.simps [simp del]

function doublings :: "real \<Rightarrow> nat" where
  "doublings x = (if x \<le> 0 \<or> 1 \<le> x then 0 else Suc (doublings (2 * x)))"
  by pat_completeness auto
termination
proof (relation "measure (\<lambda>x. nat \<lfloor>1 / x\<rfloor>)")
  show "wf (measure (\<lambda>x. nat \<lfloor>1 / x\<rfloor>))" by simp
next
  fix x :: real
  assume "\<not> (x \<le> 0 \<or> 1 \<le> x)"
  then have one: "1 < 1 / x" by simp
  then have pos: "0 < \<lfloor>1 / x\<rfloor>" by linarith
  have "real_of_int (2 * \<lfloor>1 / x / 2\<rfloor>) \<le> 1 / x" by simp linarith
  then have "2 * \<lfloor>1 / x / 2\<rfloor> \<le> \<lfloor>1 / x\<rfloor>" by (simp only: le_floor_iff)
  with pos have lt: "nat \<lfloor>1 / x / 2\<rfloor> < nat \<lfloor>1 / x\<rfloor>" by linarith
  have e: "1 / (2 * x) = 1 / x / 2" by simp
  have "nat \<lfloor>1 / (2 * x)\<rfloor> < nat \<lfloor>1 / x\<rfloor>" by (subst e) (rule lt)
  then show "(2 * x, x) \<in> measure (\<lambda>x. nat \<lfloor>1 / x\<rfloor>)" by (simp only: in_measure)
qed

declare doublings.simps [simp del]

text \<open>The distance between neighbouring doubles in the binade of a positive \<open>x\<close>.\<close>

definition ulp :: "real \<Rightarrow> real" where
  "ulp x = (if 1 \<le> x then 2 ^ halvings x / 2 ^ 52 else 1 / (2 ^ doublings x * 2 ^ 52))"

text \<open>The nearest integer, the even one of two that are equally near.\<close>

definition round_half_even :: "real \<Rightarrow> int" where
  "round_half_even z =
     (let f = \<lfloor>z\<rfloor>; d = z - of_int f
      in if d < 1 / 2 then f else if 1 / 2 < d then f + 1 else if even f then f else f + 1)"

definition round_double :: "real \<Rightarrow> real" where
  "round_double x =
     (if x = 0 then 0
      else (let u = ulp \<bar>x\<bar> in of_int (round_half_even (x / u)) * u))"

text \<open>\<open>x + y\<close>, \<open>x * y\<close> and a decimal literal.\<close>

definition fadd :: "real \<Rightarrow> real \<Rightarrow> real" where
  "fadd x y = round_double (x + y)"

definition fmul :: "real \<Rightarrow> real \<Rightarrow> real" where
  "fmul x y = round_double (x * y)"

definition lit :: "real \<Rightarrow> real" where
  "lit x = round_double x"

section \<open>The regular expressions of nlp.ts\<close>

text \<open>
  Every pattern of the file has the shape \<open>\b(a1|...|an)\b\<close>, where an alternative is a
  sequence of literal characters, \<open>\d\<close> and \<open>.*\<close>. A position in the text is the character
  before it (if any) and the text from it on.
\<close>

datatype atom = Ch char | Digit | AnyStar

record pattern =
  alts :: "atom list list"
  ignore_case :: bool

definition is_word_opt :: "char option \<Rightarrow> bool" where
  "is_word_opt p = (case p of None \<Rightarrow> False | Some c \<Rightarrow> is_word_char c)"

definition word_boundary :: "char option \<Rightarrow> string \<Rightarrow> bool" where
  "word_boundary p s = (is_word_opt p \<noteq> (case s of [] \<Rightarrow> False | x # _ \<Rightarrow> is_word_char x))"

definition ch_eq :: "bool \<Rightarrow> char \<Rightarrow> char \<Rightarrow> bool" where
  "ch_eq ic c x = (if ic then lower_char x = lower_char c else x = c)"

text \<open>
  One alternative followed by the closing \<open>\b\<close>, by backtracking: \<open>.*\<close> is greedy and gives
  characters back one at a time. The result is the position after the match.
\<close>

fun match_atoms :: "bool \<Rightarrow> atom list \<Rightarrow> char option \<Rightarrow> string \<Rightarrow> (char option \<times> string) option" where
  "match_atoms ic [] p s = (if word_boundary p s then Some (p, s) else None)"
| "match_atoms ic (Ch c # as) p [] = None"
| "match_atoms ic (Ch c # as) p (x # xs) =
     (if ch_eq ic c x then match_atoms ic as (Some x) xs else None)"
| "match_atoms ic (Digit # as) p [] = None"
| "match_atoms ic (Digit # as) p (x # xs) =
     (if is_digit x then match_atoms ic as (Some x) xs else None)"
| "match_atoms ic (AnyStar # as) p [] = match_atoms ic as p []"
| "match_atoms ic (AnyStar # as) p (x # xs) =
     (if is_line_terminator x then match_atoms ic as p (x # xs)
      else
        (case match_atoms ic (AnyStar # as) (Some x) xs of
           Some r \<Rightarrow> Some r
         | None \<Rightarrow> match_atoms ic as p (x # xs)))"

fun match_alts :: "bool \<Rightarrow> atom list list \<Rightarrow> char option \<Rightarrow> string \<Rightarrow> (char option \<times> string) option" where
  "match_alts ic [] p s = None"
| "match_alts ic (a # as) p s =
     (case match_atoms ic a p s of
        Some r \<Rightarrow> Some r
      | None \<Rightarrow> match_alts ic as p s)"

definition match_here :: "pattern \<Rightarrow> char option \<Rightarrow> string \<Rightarrow> (char option \<times> string) option" where
  "match_here pat p s = (if word_boundary p s then match_alts (ignore_case pat) (alts pat) p s else None)"

text \<open>\<open>pattern.test(s)\<close> for a pattern without the \<open>g\<close> flag.\<close>

fun test_from :: "pattern \<Rightarrow> char option \<Rightarrow> string \<Rightarrow> bool" where
  "test_from pat p [] = (match_here pat p [] \<noteq> None)"
| "test_from pat p (x # xs) = (match_here pat p (x # xs) \<noteq> None \<or> test_from pat (Some x) xs)"

definition regex_test :: "pattern \<Rightarrow> string \<Rightarrow> bool" where
  "regex_test pat s = test_from pat None s"

text \<open>
  \<open>s.match(pattern)\<close> for a pattern with the \<open>g\<close> flag: all matches from left to right,
  each search starting where the last match ended (one character further after an empty
  match). JavaScript returns null instead of an empty array; the caller pushes nothing
  then, so the empty list stands for it.
\<close>

function match_from :: "pattern \<Rightarrow> char option \<Rightarrow> string \<Rightarrow> string list" where
  "match_from pat p s =
     (case match_here pat p s of
        Some (p', r) \<Rightarrow>
          (if length r < length s then take (length s - length r) s # match_from pat p' r
           else (case s of [] \<Rightarrow> [Nil] | x # xs \<Rightarrow> [] # match_from pat (Some x) xs))
      | None \<Rightarrow> (case s of [] \<Rightarrow> [] | x # xs \<Rightarrow> match_from pat (Some x) xs))"
  by pat_completeness auto
termination
  by (relation "measure (\<lambda>(pat, p, s). length s)") auto

text \<open>The equation of \<open>match_from\<close> has no pattern on its left: it is unfolded by hand only.\<close>

declare match_from.simps [simp del]

definition regex_match_all :: "pattern \<Rightarrow> string \<Rightarrow> string list" where
  "regex_match_all pat s = match_from pat None s"

definition lits :: "string list \<Rightarrow> atom list list" where
  "lits ws = map (map Ch) ws"

section \<open>nlp.ts: the query interpreter\<close>

datatype intent = Search | Question | Comparison | Trend

record ProcessedQuery =
  originalQuery :: string
  query_keywords :: "string list"
  query_domains :: "string list"
  intent :: intent
  entities :: "string list"
  confidence :: real

definition DOMAIN_KEYWORDS :: "(string \<times> string list) list" where
  "DOMAIN_KEYWORDS =
    [(''labour'',
        [''employment'', ''unemployment'', ''workforce'', ''job'', ''labor'', ''labour'',
         ''occupation'', ''wage'', ''salary'', ''income'', ''participation'', ''work'',
         ''career'', ''skill'', ''training'']),
     (''health'',
        [''health'', ''medical'', ''hospital'', ''disease'', ''wellbeing'', ''mental'',
         ''aged care'', ''elderly'', ''nursing'', ''doctor'', ''patient'', ''treatment'',
         ''medicine'']),
     (''housing'',
        [''housing'', ''home'', ''property'', ''rent'', ''mortgage'', ''affordable'',
         ''homeless'', ''accommodation'', ''dwelling'', ''real estate'', ''rental'',
         ''household'']),
     (''education'',
        [''education'', ''school'', ''university'', ''training'', ''learning'', ''student'',
         ''teacher'', ''qualification'', ''degree'', ''course'', ''skill development'']),
     (''ageing'',
        [''ageing'', ''elderly'', ''senior'', ''retirement'', ''pension'', ''aged'',
         ''population ageing'', ''longevity'', ''geriatric'', ''older people'']),
     (''inequality'',
        [''inequality'', ''poverty'', ''wealth'', ''disparity'', ''gap'', ''distribution'',
         ''equity'', ''socioeconomic'', ''disadvantage'', ''income distribution'']),
     (''population'',
        [''population'', ''demographic'', ''census'', ''birth'', ''death'', ''migration'',
         ''fertility'', ''mortality'', ''age structure'', ''regional''])]"

definition QUESTION_PATTERNS :: "(pattern \<times> intent) list" where
  "QUESTION_PATTERNS =
    [(\<lparr>alts = lits [''what'', ''which'', ''where'', ''how many'', ''how much''],
       ignore_case = True\<rparr>, Search),
     (\<lparr>alts = lits [''show me'', ''tell me'', ''give me''], ignore_case = True\<rparr>, Search),
     (\<lparr>alts = lits [''compare'', ''versus'', ''vs'', ''difference''], ignore_case = True\<rparr>,
      Comparison),
     (\<lparr>alts = lits [''trend'', ''change'', ''over time'', ''since'']
              @ [map Ch ''from'' @ [AnyStar] @ map Ch ''to''],
       ignore_case = True\<rparr>, Trend)]"

definition ENTITY_PATTERNS :: "pattern list" where
  "ENTITY_PATTERNS =
    [\<lparr>alts = lits [''act'', ''nsw'', ''qld'', ''sa'', ''tas'', ''vic'', ''wa'', ''nt''],
      ignore_case = True\<rparr>,
     \<lparr>alts = [map Ch ''201'' @ [Digit], map Ch ''202'' @ [Digit] ], ignore_case = False\<rparr>,
     \<lparr>alts = lits [''january'', ''february'', ''march'', ''april'', ''may'', ''june'', ''july'',
                   ''august'', ''september'', ''october'', ''november'', ''december''],
      ignore_case = True\<rparr>]"

definition stopWords :: "string list" where
  "stopWords =
    [''the'', ''a'', ''an'', ''and'', ''or'', ''but'', ''in'', ''on'', ''at'', ''to'', ''for'',
     ''of'', ''with'', ''by'', ''is'', ''are'', ''was'', ''were'', ''be'', ''been'', ''being'',
     ''have'', ''has'', ''had'', ''do'', ''does'', ''did'', ''will'', ''would'', ''could'',
     ''should'', ''may'', ''might'', ''must'', ''can'', ''shall'']"

text \<open>The tokens of a query: punctuation replaced by spaces, then split at white space.\<close>

definition tokens :: "string \<Rightarrow> string list" where
  "tokens query = split_ws (replace_punct query)"

definition extractKeywords :: "string \<Rightarrow> string list" where
  "extractKeywords query =
     uniq (filter (\<lambda>word. length word > 2 \<and> \<not> arr_includes stopWords word) (tokens query))"

text \<open>The score one row of the domain table gets from the query and its keywords.\<close>

definition domainScore :: "string \<Rightarrow> string list \<Rightarrow> string \<times> string list \<Rightarrow> int" where
  "domainScore query kws row =
     (case row of (domain, domainKeywords) \<Rightarrow>
        int (length (filter (\<lambda>keyword.
               list_ex (\<lambda>dk. str_includes dk keyword \<or> str_includes keyword dk) domainKeywords) kws))
        + (if str_includes query domain then 2 else 0))"

text \<open>
  \<open>domainScores\<close> is an object filled in table order; \<open>Object.entries\<close> lists its string
  keys in insertion order, and \<open>Array.prototype.sort\<close> is stable.
\<close>

definition domainScores :: "string \<Rightarrow> string list \<Rightarrow> (string \<times> int) list" where
  "domainScores query kws =
     filter (\<lambda>(domain, score). score > 0)
       (map (\<lambda>row. (fst row, domainScore query kws row)) DOMAIN_KEYWORDS)"

definition detectDomains :: "string \<Rightarrow> string list \<Rightarrow> string list" where
  "detectDomains query kws =
     map fst (sort_key (\<lambda>(domain, score). - score) (domainScores query kws))"

fun first_intent :: "(pattern \<times> intent) list \<Rightarrow> string \<Rightarrow> intent" where
  "first_intent [] query = Search"
| "first_intent ((pat, i) # ps) query = (if regex_test pat query then i else first_intent ps query)"

definition detectIntent :: "string \<Rightarrow> intent" where
  "detectIntent query = first_intent QUESTION_PATTERNS query"

definition extractEntities :: "string \<Rightarrow> string list" where
  "extractEntities query = uniq (concat (map (\<lambda>pat. regex_match_all pat query) ENTITY_PATTERNS))"

definition calculateConfidence :: "string list \<Rightarrow> string list \<Rightarrow> string list \<Rightarrow> real" where
  "calculateConfidence kws doms ents =
     (let c0 = lit 0.5;
          c1 = fadd c0 (min (fmul (real (length kws)) (lit 0.1)) (lit 0.3));
          c2 = fadd c1 (fmul (real (length doms)) (lit 0.1));
          c3 = fadd c2 (fmul (real (length ents)) (lit 0.1))
      in min c3 (lit 0.9))"

definition processQuery :: "string \<Rightarrow> ProcessedQuery" where
  "processQuery query =
     (let normalizedQuery = trim (toLowerCase query);
          kws = extractKeywords normalizedQuery;
          doms = detectDomains normalizedQuery kws;
          detected = detectIntent normalizedQuery;
          ents = extractEntities normalizedQuery;
          conf = calculateConfidence kws doms ents
      in \<lparr>originalQuery = query, query_keywords = kws, query_domains = doms, intent = detected,
          entities = ents, confidence = conf\<rparr>)"

text \<open>\<open>/\d{4}/.test(e)\<close>: four digits in a row somewhere in \<open>e\<close>.\<close>

fun four_digits :: "string \<Rightarrow> bool" where
  "four_digits (a # b # c # d # rest) = (is_digit a \<and> is_digit b \<and> is_digit c \<and> is_digit d)"
| "four_digits s = False"

fun test_d4 :: "string \<Rightarrow> bool" where
  "test_d4 [] = False"
| "test_d4 (x # xs) = (four_digits (x # xs) \<or> test_d4 xs)"

definition synonyms :: "(string \<times> string list) list" where
  "synonyms =
    [(''employment'', [''jobs'', ''workforce'', ''labor'']),
     (''unemployment'', [''jobless'', ''out of work'']),
     (''housing'', [''accommodation'', ''shelter'', ''dwelling'']),
     (''aged care'', [''elderly care'', ''senior care'', ''geriatric care'']),
     (''education'', [''learning'', ''training'', ''qualification'']),
     (''inequality'', [''disparity'', ''gap'', ''imbalance''])]"

definition getRelatedTerms :: "string \<Rightarrow> string list" where
  "getRelatedTerms query =
     (let processed = processQuery query;
          fromDomains = concat (map (\<lambda>domain.
              take 3 (case map_of DOMAIN_KEYWORDS domain of None \<Rightarrow> [] | Some domainTerms \<Rightarrow> domainTerms))
            (query_domains processed));
          fromSynonyms = concat (map (\<lambda>keyword.
              concat (map (\<lambda>(term, syns).
                if str_includes keyword term \<or> str_includes term keyword then syns else []) synonyms))
            (query_keywords processed))
      in uniq (fromDomains @ fromSynonyms))"

definition domainSuggestions :: "string \<Rightarrow> string \<Rightarrow> string list" where
  "domainSuggestions query domain =
     (if domain = ''labour'' then
        [query @ '' by state'', query @ '' trends'', query @ '' by age group'', query @ '' and skills'']
      else if domain = ''health'' then
        [query @ '' by region'', query @ '' statistics'', query @ '' and demographics'']
      else if domain = ''housing'' then
        [query @ '' affordability'', query @ '' by location'', query @ '' and income'']
      else [])"

definition generateSuggestions :: "string \<Rightarrow> string list" where
  "generateSuggestions query =
     (let processed = processQuery query;
          byDomain = concat (map (domainSuggestions query) (query_domains processed));
          byTime = (if \<not> list_ex test_d4 (entities processed)
                    then [query @ '' in 2023'', query @ '' since 2015''] else [])
      in take 4 (byDomain @ byTime))"

section \<open>The dataset store\<close>

text \<open>
  The store (Prisma) is outside the repository. Its rows are records; what a query
  returns is a parameter of every function that asks it, and a rejected query is an
  error value. \<open>JSON.parse\<close> is a parameter too: \<open>None\<close> is the \<open>SyntaxError\<close> it throws,
  and a stored text that parses is taken to hold an array of strings, which is what
  every writer of the repository stores (\<open>JSON.stringify\<close> of the keyword and domain
  arrays).
\<close>

datatype error = SyntaxError | StoreError | NlpError

type_synonym json_parse = "string \<Rightarrow> string list option"

record tag =
  tag_name :: string

record dataset =
  ds_id :: string
  ds_name :: string
  ds_description :: string
  ds_keywords :: string
  ds_domains :: string
  ds_tags :: "tag list"
  ds_agencyId :: string
  ds_agency_name :: string
  ds_accessibility :: string

text \<open>
  A \<open>DatasetRelation\<close> row with both ends included. \<open>relatedFrom\<close> of a dataset holds
  the relations that start at it (the other end is \<open>rel_to\<close>), \<open>relatedTo\<close> those that
  end at it (the other end is \<open>rel_from\<close>).
\<close>

record relation =
  relationType :: string
  rel_description :: "string option"
  rel_from :: dataset
  rel_to :: dataset

record dataset_full = dataset +
  relatedFrom :: "relation list"
  relatedTo :: "relation list"

text \<open>A row with \<open>_count: {relatedFrom, relatedTo}\<close>.\<close>

record dataset_counted = dataset +
  count_relatedFrom :: nat
  count_relatedTo :: nat

record store =
  findUnique :: "string \<Rightarrow> error + dataset_full option"
  findManyDomainExcept :: "string \<Rightarrow> string \<Rightarrow> error + dataset list"
  findManyAgencyExcept :: "string \<Rightarrow> string \<Rightarrow> error + dataset list"
  findManyDomain :: "string \<Rightarrow> error + dataset list"
  findManyKeywords :: "string list \<Rightarrow> error + dataset list"
  findManyApi :: "error + dataset list"
  findManyRecent :: "int \<Rightarrow> error + dataset_counted list"

text \<open>\<open>text || '[]'\<close>: the empty string is falsy.\<close>

definition or_empty_array :: "string \<Rightarrow> string" where
  "or_empty_array text = (if text = [] then ''[]'' else text)"

text \<open>\<open>try { return JSON.parse(text || '[]') } catch { return [] }\<close>\<close>

definition parse_or_nothing :: "json_parse \<Rightarrow> string \<Rightarrow> string list" where
  "parse_or_nothing JSON_parse text =
     (case JSON_parse (or_empty_array text) of None \<Rightarrow> [] | Some xs \<Rightarrow> xs)"

text \<open>\<open>JSON.parse(text || '[]')\<close> outside a try block.\<close>

definition parse_or_throw :: "json_parse \<Rightarrow> string \<Rightarrow> error + string list" where
  "parse_or_throw JSON_parse text =
     (case JSON_parse (or_empty_array text) of None \<Rightarrow> Inl SyntaxError | Some xs \<Rightarrow> Inr xs)"

definition bind_err :: "error + 'a \<Rightarrow> ('a \<Rightarrow> error + 'b) \<Rightarrow> error + 'b" where
  "bind_err m f = (case m of Inl e \<Rightarrow> Inl e | Inr x \<Rightarrow> f x)"

text \<open>A \<open>forEach\<close> whose body pushes some elements or throws: it stops at the first throw.\<close>

fun collect_err :: "('a \<Rightarrow> error + 'b list) \<Rightarrow> 'a list \<Rightarrow> error + 'b list" where
  "collect_err f [] = Inr []"
| "collect_err f (x # xs) =
     bind_err (f x) (\<lambda>ys. bind_err (collect_err f xs) (\<lambda>zs. Inr (ys @ zs)))"

section \<open>search/route.ts\<close>

text \<open>
  The \<open>try\<close>/\<open>catch\<close> around the three calls into nlp.ts, with the value of line 53.
  The handler reaches it for a query that is not empty; an empty one is answered with
  status 400 before.
\<close>

definition nlp_fallback :: "string \<Rightarrow> ProcessedQuery" where
  "nlp_fallback query =
     \<lparr>originalQuery = query, query_keywords = split_space query, query_domains = [],
      intent = Search, entities = [], confidence = 0.5\<rparr>"

definition try_nlp ::
  "(error + ProcessedQuery \<times> string list \<times> string list) \<Rightarrow> string
     \<Rightarrow> ProcessedQuery \<times> string list \<times> string list" where
  "try_nlp body query =
     (case body of
        Inr result \<Rightarrow> result
      | Inl nlpError \<Rightarrow> (nlp_fallback query, [], []))"

definition GET_nlp :: "string \<Rightarrow> ProcessedQuery \<times> string list \<times> string list" where
  "GET_nlp query =
     try_nlp (Inr (processQuery query, getRelatedTerms query, generateSuggestions query)) query"

definition calculateRelevanceScore ::
  "json_parse \<Rightarrow> dataset_full \<Rightarrow> string \<Rightarrow> string list \<Rightarrow> error + int" where
  "calculateRelevanceScore JSON_parse dataset query searchTerms =
     (let score0 = 0;
          score1 = (if str_includes (toLowerCase (ds_name dataset)) (toLowerCase query)
                    then score0 + 100 else score0);
          score2 = (if str_includes (toLowerCase (ds_description dataset)) (toLowerCase query)
                    then score1 + 50 else score1)
      in bind_err (parse_or_throw JSON_parse (ds_keywords dataset)) (\<lambda>kws.
           let score3 = fold (\<lambda>term score.
                   if list_ex (\<lambda>keyword. str_includes (toLowerCase keyword) term) kws
                   then score + 25 else score) searchTerms score2;
               score4 = fold (\<lambda>tag score.
                   if str_includes (toLowerCase (tag_name tag)) (toLowerCase query)
                   then score + 20 else score) (ds_tags dataset) score3;
               totalRelations = int (length (relatedFrom dataset)) + int (length (relatedTo dataset))
           in Inr (score4 + totalRelations * 10)))"

section \<open>The recommendation engine\<close>

datatype rec_type = Related | Domain | Keyword | Agency | Trending

text \<open>\<open>{...dataset, keywords: ..., domains: ...}\<close>: the row with the two fields parsed.\<close>

record 'a out_dataset =
  row :: "'a dataset_scheme"
  out_keywords :: "string list"
  out_domains :: "string list"

record 'a recommendation =
  rec_dataset :: "'a out_dataset"
  score :: real
  reason :: string
  rec_type :: rec_type

definition rec_id :: "'a recommendation \<Rightarrow> string" where
  "rec_id r = ds_id (row (rec_dataset r))"

definition calculateSimilarity ::
  "json_parse \<Rightarrow> 'a dataset_scheme \<Rightarrow> 'b dataset_scheme \<Rightarrow> error + real" where
  "calculateSimilarity JSON_parse dataset1 dataset2 =
     bind_err (parse_or_throw JSON_parse (ds_domains dataset1)) (\<lambda>domains1.
     bind_err (parse_or_throw JSON_parse (ds_domains dataset2)) (\<lambda>domains2.
       let domainOverlap = length (filter (\<lambda>d. arr_includes domains2 d) domains1);
           similarity1 = fadd 0 (fmul (real domainOverlap) (lit 0.3))
       in
     bind_err (parse_or_throw JSON_parse (ds_keywords dataset1)) (\<lambda>keywords1.
     bind_err (parse_or_throw JSON_parse (ds_keywords dataset2)) (\<lambda>keywords2.
       let keywordOverlap = length (filter (\<lambda>k.
               list_ex (\<lambda>k2. str_includes k2 k \<or> str_includes k k2) keywords2) keywords1);
           similarity2 = fadd similarity1 (fmul (real keywordOverlap) (lit 0.2));
           tags1 = map tag_name (ds_tags dataset1);
           tags2 = map tag_name (ds_tags dataset2);
           tagOverlap = length (filter (\<lambda>t. arr_includes tags2 t) tags1);
           similarity3 = fadd similarity2 (fmul (real tagOverlap) (lit 0.25));
           similarity4 = (if ds_agencyId dataset1 = ds_agencyId dataset2
                          then fadd similarity3 (lit 0.1) else similarity3);
           similarity5 = (if ds_accessibility dataset1 = ''api'' \<and> ds_accessibility dataset2 = ''api''
                          then fadd similarity4 (lit 0.15) else similarity4)
       in Inr similarity5))))"

text \<open>\<open>xs.findIndex(p)\<close>, which is \<open>-1\<close> when no element satisfies \<open>p\<close>.\<close>

fun findIndex :: "('a \<Rightarrow> bool) \<Rightarrow> 'a list \<Rightarrow> int" where
  "findIndex p [] = - 1"
| "findIndex p (x # xs) =
     (if p x then 0 else (let i = findIndex p xs in if i < 0 then - 1 else i + 1))"

text \<open>\<open>xs.filter((x, index) => p(x, index))\<close>\<close>

definition filter_indexed :: "('a \<Rightarrow> nat \<Rightarrow> bool) \<Rightarrow> 'a list \<Rightarrow> 'a list" where
  "filter_indexed p xs = map fst (filter (\<lambda>(x, index). p x index) (zip xs [0..<length xs]))"

text \<open>\<open>xs.slice(0, n)\<close>: a negative \<open>n\<close> counts from the end.\<close>

definition slice0 :: "'a list \<Rightarrow> int \<Rightarrow> 'a list" where
  "slice0 xs n = (if n < 0 then take (nat (int (length xs) + n)) xs else take (nat n) xs)"

text \<open>
  \<open>xs.sort((a, b) => b.score - a.score)\<close>: a stable sort by descending score. The
  difference of two doubles is rounded, but it is zero, positive or negative as the exact
  difference is.
\<close>

definition sort_by_score :: "'a recommendation list \<Rightarrow> 'a recommendation list" where
  "sort_by_score recs = sort_key (\<lambda>r. - score r) recs"

text \<open>
  The last statement of \<open>getRelatedRecommendations\<close> and of \<open>getSearchRecommendations\<close>:
  keep a recommendation when it is the first one with its dataset id, sort, cut.
\<close>

definition uniqueRecommendations :: "'a recommendation list \<Rightarrow> int \<Rightarrow> 'a recommendation list" where
  "uniqueRecommendations recommendations limit =
     slice0 (sort_by_score
       (filter_indexed (\<lambda>rec index.
            int index = findIndex (\<lambda>r. rec_id r = rec_id rec) recommendations)
          recommendations)) limit"

definition or_else :: "string option \<Rightarrow> string \<Rightarrow> string" where
  "or_else description fallback =
     (case description of None \<Rightarrow> fallback | Some d \<Rightarrow> if d = [] then fallback else d)"

definition tolerant_out :: "json_parse \<Rightarrow> 'a dataset_scheme \<Rightarrow> 'a out_dataset" where
  "tolerant_out JSON_parse dataset =
     \<lparr>row = dataset,
      out_keywords = parse_or_nothing JSON_parse (ds_keywords dataset),
      out_domains = parse_or_nothing JSON_parse (ds_domains dataset)\<rparr>"

definition strict_out :: "json_parse \<Rightarrow> dataset \<Rightarrow> error + unit out_dataset" where
  "strict_out JSON_parse dataset =
     bind_err (parse_or_throw JSON_parse (ds_keywords dataset)) (\<lambda>kws.
     bind_err (parse_or_throw JSON_parse (ds_domains dataset)) (\<lambda>doms.
       Inr \<lparr>row = dataset, out_keywords = kws, out_domains = doms\<rparr>))"

text \<open>Lines 108 to 129: one recommendation for every relation of the current dataset.\<close>

definition directRecommendation ::
  "json_parse \<Rightarrow> dataset \<Rightarrow> string \<Rightarrow> string option \<Rightarrow> unit recommendation" where
  "directRecommendation JSON_parse dataset relType description =
     \<lparr>rec_dataset = tolerant_out JSON_parse dataset,
      score = 1.0,
      reason = relType @ '': '' @ or_else description ''Direct relationship'',
      rec_type = Related\<rparr>"

definition directRecommendations :: "json_parse \<Rightarrow> dataset_full \<Rightarrow> unit recommendation list" where
  "directRecommendations JSON_parse currentDataset =
     (let directRelations =
            map (\<lambda>r. (rel_to r, relationType r, rel_description r)) (relatedFrom currentDataset)
            @ map (\<lambda>r. (rel_from r, relationType r, rel_description r)) (relatedTo currentDataset)
      in map (\<lambda>(dataset, relType, description).
                directRecommendation JSON_parse dataset relType description) directRelations)"

text \<open>Lines 131 to 163.\<close>

definition domainRecommendations ::
  "store \<Rightarrow> json_parse \<Rightarrow> string \<Rightarrow> dataset_full \<Rightarrow> error + unit recommendation list" where
  "domainRecommendations st JSON_parse datasetId currentDataset =
     bind_err (parse_or_throw JSON_parse (ds_domains currentDataset)) (\<lambda>doms.
       case doms of
         [] \<Rightarrow> Inr []
       | primary # _ \<Rightarrow>
           bind_err (findManyDomainExcept st datasetId primary) (\<lambda>domainDatasets.
             collect_err (\<lambda>dataset.
               bind_err (calculateSimilarity JSON_parse currentDataset dataset) (\<lambda>similarity.
                 if similarity > lit 0.3 then
                   bind_err (strict_out JSON_parse dataset) (\<lambda>out.
                     Inr [\<lparr>rec_dataset = out, score = fmul similarity (lit 0.8),
                           reason = ''Same domain: '' @ primary, rec_type = Domain\<rparr>])
                 else Inr [])) domainDatasets))"

text \<open>Lines 165 to 194.\<close>

definition agencyRecommendations ::
  "store \<Rightarrow> json_parse \<Rightarrow> string \<Rightarrow> dataset_full \<Rightarrow> error + unit recommendation list" where
  "agencyRecommendations st JSON_parse datasetId currentDataset =
     bind_err (findManyAgencyExcept st datasetId (ds_agencyId currentDataset)) (\<lambda>agencyDatasets.
       collect_err (\<lambda>dataset.
         bind_err (calculateSimilarity JSON_parse currentDataset dataset) (\<lambda>similarity.
           Inr [\<lparr>rec_dataset = tolerant_out JSON_parse dataset, score = fmul similarity (lit 0.6),
                 reason = ''From same agency: '' @ ds_agency_name currentDataset,
                 rec_type = Agency\<rparr>])) agencyDatasets)"

text \<open>The array \<open>recommendations\<close> of \<open>getRelatedRecommendations\<close> before its last statement.\<close>

definition relatedCandidates ::
  "store \<Rightarrow> json_parse \<Rightarrow> string \<Rightarrow> dataset_full \<Rightarrow> error + unit recommendation list" where
  "relatedCandidates st JSON_parse datasetId currentDataset =
     bind_err (domainRecommendations st JSON_parse datasetId currentDataset) (\<lambda>byDomain.
     bind_err (agencyRecommendations st JSON_parse datasetId currentDataset) (\<lambda>byAgency.
       Inr (directRecommendations JSON_parse currentDataset @ byDomain @ byAgency)))"

definition getRelatedRecommendations ::
  "store \<Rightarrow> json_parse \<Rightarrow> string \<Rightarrow> int \<Rightarrow> error + unit recommendation list" where
  "getRelatedRecommendations st JSON_parse datasetId limit =
     bind_err (findUnique st datasetId) (\<lambda>found.
       case found of
         None \<Rightarrow> Inr []
       | Some currentDataset \<Rightarrow>
           bind_err (relatedCandidates st JSON_parse datasetId currentDataset) (\<lambda>recommendations.
             Inr (uniqueRecommendations recommendations limit)))"

text \<open>A number inside a template literal: its decimal digits.\<close>

function show_nat :: "nat \<Rightarrow> string" where
  "show_nat n =
     (if n < 10 then [''0123456789'' ! n]
      else show_nat (n div 10) @ [''0123456789'' ! (n mod 10)])"
  by pat_completeness auto
termination
  by (relation "measure id") auto

declare show_nat.simps [simp del]

record RecommendationContext =
  searchQuery :: "string option"
  ctx_domains :: "string list option"
  ctx_keywords :: "string list option"

text \<open>Lines 214 to 241.\<close>

definition popularRecommendations ::
  "store \<Rightarrow> json_parse \<Rightarrow> RecommendationContext \<Rightarrow> error + unit recommendation list" where
  "popularRecommendations st JSON_parse ctx =
     (case ctx_domains ctx of
        None \<Rightarrow> Inr []
      | Some [] \<Rightarrow> Inr []
      | Some (primary # _) \<Rightarrow>
          bind_err (findManyDomain st primary) (\<lambda>domainDatasets.
            collect_err (\<lambda>dataset.
              bind_err (strict_out JSON_parse dataset) (\<lambda>out.
                Inr [\<lparr>rec_dataset = out, score = lit 0.7,
                      reason = ''Popular in '' @ primary @ '' domain'', rec_type = Domain\<rparr>]))
              domainDatasets))"

text \<open>Lines 243 to 276.\<close>

definition keywordRecommendations ::
  "store \<Rightarrow> json_parse \<Rightarrow> RecommendationContext \<Rightarrow> error + unit recommendation list" where
  "keywordRecommendations st JSON_parse ctx =
     (case ctx_keywords ctx of
        None \<Rightarrow> Inr []
      | Some [] \<Rightarrow> Inr []
      | Some (kw # kws) \<Rightarrow>
          bind_err (findManyKeywords st (kw # kws)) (\<lambda>keywordDatasets.
            collect_err (\<lambda>dataset.
              bind_err (parse_or_throw JSON_parse (ds_keywords dataset)) (\<lambda>parsed.
                let keywordMatches = length (filter (\<lambda>keyword.
                      list_ex (\<lambda>k. str_includes k keyword) parsed) (kw # kws))
                in bind_err (strict_out JSON_parse dataset) (\<lambda>out.
                     Inr [\<lparr>rec_dataset = out, score = fadd (lit 0.5) (fmul (real keywordMatches) (lit 0.1)),
                           reason = ''Matches '' @ show_nat keywordMatches @ '' search terms'',
                           rec_type = Keyword\<rparr>])))
              keywordDatasets))"

text \<open>Lines 278 to 306.\<close>

definition apiRecommendations :: "store \<Rightarrow> json_parse \<Rightarrow> error + unit recommendation list" where
  "apiRecommendations st JSON_parse =
     bind_err (findManyApi st) (\<lambda>apiDatasets.
       Inr (map (\<lambda>dataset.
              \<lparr>rec_dataset = tolerant_out JSON_parse dataset, score = lit 0.6,
               reason = ''Live data available via API'', rec_type = Keyword\<rparr>) apiDatasets))"

definition searchCandidates ::
  "store \<Rightarrow> json_parse \<Rightarrow> RecommendationContext \<Rightarrow> error + unit recommendation list" where
  "searchCandidates st JSON_parse ctx =
     bind_err (popularRecommendations st JSON_parse ctx) (\<lambda>byDomain.
     bind_err (keywordRecommendations st JSON_parse ctx) (\<lambda>byKeyword.
     bind_err (apiRecommendations st JSON_parse) (\<lambda>byApi.
       Inr (byDomain @ byKeyword @ byApi))))"

definition getSearchRecommendations ::
  "store \<Rightarrow> json_parse \<Rightarrow> RecommendationContext \<Rightarrow> int \<Rightarrow> error + unit recommendation list" where
  "getSearchRecommendations st JSON_parse ctx limit =
     bind_err (searchCandidates st JSON_parse ctx) (\<lambda>recommendations.
       Inr (uniqueRecommendations recommendations limit))"

text \<open>
  \<open>getTrendingDatasets\<close>: the rows the store returns for \<open>orderBy updatedAt desc,
  take limit\<close>, each turned into a recommendation, in the order of the rows.
\<close>

definition trendingRecommendation ::
  "json_parse \<Rightarrow> dataset_counted \<Rightarrow> (unit dataset_counted_ext) recommendation" where
  "trendingRecommendation JSON_parse dataset =
     \<lparr>rec_dataset = tolerant_out JSON_parse dataset,
      score = fmul (real (count_relatedFrom dataset + count_relatedTo dataset)) 10,
      reason = ''Trending dataset based on relationships'',
      rec_type = Trending\<rparr>"

definition getTrendingDatasets ::
  "store \<Rightarrow> json_parse \<Rightarrow> int \<Rightarrow> error + (unit dataset_counted_ext) recommendation list" where
  "getTrendingDatasets st JSON_parse limit =
     bind_err (findManyRecent st limit) (\<lambda>trending.
       Inr (map (trendingRecommendation JSON_parse) trending))"

text \<open>The loop of \<open>getComplementaryDatasets\<close>: the related recommendations of every id, two each.\<close>

definition complementaryCandidates ::
  "store \<Rightarrow> json_parse \<Rightarrow> string list \<Rightarrow> error + unit recommendation list" where
  "complementaryCandidates st JSON_parse datasetIds =
     collect_err (\<lambda>datasetId. getRelatedRecommendations st JSON_parse datasetId 2) datasetIds"

definition getComplementaryDatasets ::
  "store \<Rightarrow> json_parse \<Rightarrow> string list \<Rightarrow> error + unit recommendation list" where
  "getComplementaryDatasets st JSON_parse datasetIds =
     bind_err (complementaryCandidates st JSON_parse datasetIds) (\<lambda>recommendations.
       Inr (slice0 (sort_by_score
              (filter_indexed (\<lambda>rec index.
                   int index = findIndex (\<lambda>r. rec_id r = rec_id rec) recommendations
                   \<and> \<not> arr_includes datasetIds (rec_id rec))
                 recommendations)) 5))"

section \<open>Notions used to state the properties\<close>

definition domainNames :: "string list" where
  "domainNames = map fst DOMAIN_KEYWORDS"

text \<open>The score of a domain name: that of its row in the table.\<close>

definition scoreOf :: "string \<Rightarrow> string list \<Rightarrow> string \<Rightarrow> int" where
  "scoreOf query kws d =
     (case map_of DOMAIN_KEYWORDS d of
        None \<Rightarrow> 0
      | Some terms \<Rightarrow> domainScore query kws (d, terms))"

text \<open>\<open>precedes x y zs\<close>: some occurrence of \<open>x\<close> in \<open>zs\<close> has \<open>y\<close> after it.\<close>

fun precedes :: "'a \<Rightarrow> 'a \<Rightarrow> 'a list \<Rightarrow> bool" where
  "precedes x y [] = False"
| "precedes x y (z # zs) = ((z = x \<and> y \<in> set zs) \<or> precedes x y zs)"

text \<open>\<open>pieces.join(' ')\<close>\<close>

fun join_space :: "string list \<Rightarrow> string" where
  "join_space [] = []"
| "join_space [t] = t"
| "join_space (t # u # ts) = t @ CHR '' '' # join_space (u # ts)"

text \<open>Scores do not increase along the list.\<close>

definition descending :: "'a recommendation list \<Rightarrow> bool" where
  "descending recs = sorted_wrt (\<lambda>a b. score b \<le> score a) recs"

text \<open>The first recommendation of a list with the dataset id of \<open>r\<close>.\<close>

definition first_with_id :: "'a recommendation list \<Rightarrow> 'a recommendation \<Rightarrow> 'a recommendation option" where
  "first_with_id recs r = find (\<lambda>x. rec_id x = rec_id r) recs"

text \<open>
  The relevance score as section 4.2 of the specification words it: a search term counts
  when it and some keyword of the dataset contain one another, either way round, case
  ignored.
\<close>

definition spec_relevance :: "string list \<Rightarrow> dataset_full \<Rightarrow> string \<Rightarrow> string list \<Rightarrow> int" where
  "spec_relevance kws dataset query searchTerms =
     (if str_includes (toLowerCase (ds_name dataset)) (toLowerCase query) then 100 else 0)
     + (if str_includes (toLowerCase (ds_description dataset)) (toLowerCase query) then 50 else 0)
     + 25 * int (length (filter (\<lambda>term.
         \<exists>keyword \<in> set kws.
           str_includes (toLowerCase keyword) (toLowerCase term)
           \<or> str_includes (toLowerCase term) (toLowerCase keyword)) searchTerms))
     + 20 * int (length (filter (\<lambda>tag.
         str_includes (toLowerCase (tag_name tag)) (toLowerCase query)) (ds_tags dataset)))
     + 10 * (int (length (relatedFrom dataset)) + int (length (relatedTo dataset)))"

text \<open>
  First occurrences by key, written as a recursion: an element is kept when its key has not
  been seen and it satisfies \<open>q\<close>; its key counts as seen in either case.
\<close>

fun keep_first :: "('a \<Rightarrow> 'k) \<Rightarrow> ('a \<Rightarrow> bool) \<Rightarrow> 'k set \<Rightarrow> 'a list \<Rightarrow> 'a list" where
  "keep_first key q seen [] = []"
| "keep_first key q seen (x # xs) =
     (if key x \<in> seen then keep_first key q seen xs
      else (if q x then [x] else []) @ keep_first key q (insert (key x) seen) xs)"


text \<open>
  The similarity as section 4.3 of the specification words it, in exact arithmetic over
  the sets of domains, keywords and tags.
\<close>

definition spec_similarity ::
  "string list \<Rightarrow> string list \<Rightarrow> string list \<Rightarrow> string list
     \<Rightarrow> 'a dataset_scheme \<Rightarrow> 'b dataset_scheme \<Rightarrow> real" where
  "spec_similarity domains1 domains2 keywords1 keywords2 dataset1 dataset2 =
     0.3 * real (card (set domains1 \<inter> set domains2))
     + 0.2 * real (card {k \<in> set keywords1.
                          \<exists>k2 \<in> set keywords2. str_includes k2 k \<or> str_includes k k2})
     + 0.25 * real (card (tag_name ` set (ds_tags dataset1) \<inter> tag_name ` set (ds_tags dataset2)))
     + (if ds_agencyId dataset1 = ds_agencyId dataset2 then 0.1 else 0)
     + (if ds_accessibility dataset1 = ''api'' \<and> ds_accessibility dataset2 = ''api''
        then 0.15 else 0)"

text \<open>The largest relative error of one rounding.\<close>

definition unit_roundoff :: real where
  "unit_roundoff = 1 / 2 ^ 53"

text \<open>
  \<open>approximates k x X\<close>: the computed \<open>x\<close> is the exact, non-negative \<open>X\<close> up to \<open>k\<close>
  roundings.
\<close>

definition approximates :: "nat \<Rightarrow> real \<Rightarrow> real \<Rightarrow> bool" where
  "approximates k x X =
     (0 \<le> X \<and> X * (1 - unit_roundoff) ^ k \<le> x \<and> x \<le> X * (1 + unit_roundoff) ^ k)"

section \<open>A small store for the examples\<close>

text \<open>\<open>JSON.stringify\<close> of an array of strings that need no escaping, as seed.ts stores them.\<close>

definition quoted :: "string \<Rightarrow> string" where
  "quoted s = CHR 0x22 # s @ [CHR 0x22]"

fun comma_separated :: "string list \<Rightarrow> string" where
  "comma_separated [] = []"
| "comma_separated [t] = t"
| "comma_separated (t # u # ts) = t @ CHR '','' # comma_separated (u # ts)"

definition stringify :: "string list \<Rightarrow> string" where
  "stringify xs = ''['' @ comma_separated (map quoted xs) @ '']''"

text \<open>What \<open>JSON.parse\<close> returns on the texts of the examples; any other text is refused.\<close>

definition sample_arrays :: "string list list" where
  "sample_arrays =
     [Nil, [''employ''], [''labour force''], [''labour''], [''labour'', ''labour market''],
      [''health''], [''health'', ''ageing''] ]"

definition sample_parse :: json_parse where
  "sample_parse text = map_of (map (\<lambda>xs. (stringify xs, xs)) sample_arrays) text"

definition sample_dataset :: "string \<Rightarrow> string \<Rightarrow> dataset" where
  "sample_dataset ident agencyIdent =
     \<lparr>ds_id = ident, ds_name = ''Dataset '' @ ident, ds_description = ''About '' @ ident,
      ds_keywords = ''[]'', ds_domains = ''[]'', ds_tags = [], ds_agencyId = agencyIdent,
      ds_agency_name = ''Agency '' @ agencyIdent, ds_accessibility = ''public''\<rparr>"

definition with_relations :: "dataset \<Rightarrow> relation list \<Rightarrow> relation list \<Rightarrow> dataset_full" where
  "with_relations d outgoing incoming = dataset.extend d \<lparr>relatedFrom = outgoing, relatedTo = incoming\<rparr>"

definition with_counts :: "dataset \<Rightarrow> nat \<Rightarrow> nat \<Rightarrow> dataset_counted" where
  "with_counts d outgoing incoming =
     dataset.extend d \<lparr>count_relatedFrom = outgoing, count_relatedTo = incoming\<rparr>"

definition employ_dataset :: dataset_full where
  "employ_dataset =
     with_relations ((sample_dataset ''A'' ''X'')\<lparr>ds_keywords := stringify [''employ'']\<rparr>) [] []"

definition plain_dataset :: dataset_full where
  "plain_dataset = with_relations (sample_dataset ''A'' ''X'') [] []"

text \<open>
  Three datasets of one agency. \<open>A\<close> feeds into \<open>B\<close>; \<open>C\<close> has no relation and was
  updated last.
\<close>

definition dataset_A :: dataset where
  "dataset_A = sample_dataset ''A'' ''X''"

definition dataset_B :: dataset where
  "dataset_B = sample_dataset ''B'' ''X''"

definition dataset_C :: dataset where
  "dataset_C = sample_dataset ''C'' ''X''"

definition relation_AB :: relation where
  "relation_AB =
     \<lparr>relationType = ''feeds-into'', rel_description = Some ''A is an input of B'',
      rel_from = dataset_A, rel_to = dataset_B\<rparr>"

definition current_A :: dataset_full where
  "current_A = with_relations dataset_A [relation_AB] []"

definition current_B :: dataset_full where
  "current_B = with_relations dataset_B [] [relation_AB]"

definition sample_store :: store where
  "sample_store =
     \<lparr>findUnique = (\<lambda>ident.
        if ident = ''A'' then Inr (Some current_A)
        else if ident = ''B'' then Inr (Some current_B)
        else if ident = ''C'' then Inr (Some (with_relations dataset_C [] []))
        else Inr None),
      findManyDomainExcept = (\<lambda>ident domain. Inr []),
      findManyAgencyExcept = (\<lambda>ident agencyIdent.
        if agencyIdent = ''X''
        then Inr (filter (\<lambda>d. ds_id d \<noteq> ident) [dataset_A, dataset_B, dataset_C])
        else Inr []),
      findManyDomain = (\<lambda>domain. Inr []),
      findManyKeywords = (\<lambda>kws. Inr []),
      findManyApi = Inr [],
      findManyRecent = (\<lambda>limit.
        Inr (take (nat limit)
          [with_counts dataset_C 0 0, with_counts dataset_A 1 0, with_counts dataset_B 0 1]))\<rparr>"

text \<open>The recommendations the sample store leads to.\<close>

definition direct_A :: "unit recommendation" where
  "direct_A = directRecommendation sample_parse dataset_A ''feeds-into'' (Some ''A is an input of B'')"

definition direct_B :: "unit recommendation" where
  "direct_B = directRecommendation sample_parse dataset_B ''feeds-into'' (Some ''A is an input of B'')"

definition agency_sample :: "dataset \<Rightarrow> unit recommendation" where
  "agency_sample d =
     \<lparr>rec_dataset = tolerant_out sample_parse d, score = fmul (lit 0.1) (lit 0.6),
      reason = ''From same agency: Agency X'', rec_type = Agency\<rparr>"

definition trending_C :: "(unit dataset_counted_ext) recommendation" where
  "trending_C = trendingRecommendation sample_parse (with_counts dataset_C 0 0)"

definition trending_A :: "(unit dataset_counted_ext) recommendation" where
  "trending_A = trendingRecommendation sample_parse (with_counts dataset_A 1 0)"

text \<open>Two datasets of one agency that share a keyword and nothing else.\<close>

definition dataset_P :: dataset where
  "dataset_P = (sample_dataset ''P'' ''X'')\<lparr>ds_keywords := stringify [''labour'']\<rparr>"

definition dataset_Q :: dataset where
  "dataset_Q = (sample_dataset ''Q'' ''X'')\<lparr>ds_keywords := stringify [''labour force'']\<rparr>"

text \<open>Two datasets with stored domains and keywords, for the similarity.\<close>

definition dataset_D :: dataset where
  "dataset_D =
     (sample_dataset ''D'' ''X'')
       \<lparr>ds_domains := stringify [''health'', ''ageing''],
        ds_keywords := stringify [''labour'', ''labour market''],
        ds_tags := [\<lparr>tag_name = ''workforce''\<rparr>, \<lparr>tag_name = ''health''\<rparr>]\<rparr>"

definition dataset_E :: dataset where
  "dataset_E =
     (sample_dataset ''E'' ''X'')
       \<lparr>ds_domains := stringify [''health''],
        ds_keywords := stringify [''labour force''],
        ds_tags := [\<lparr>tag_name = ''health''\<rparr>]\<rparr>"

section \<open>Properties of the query interpreter\<close>

lemma set_uniq: "set (uniq xs) = set xs"
  by (induction xs rule: uniq.induct) auto

lemma distinct_uniq: "distinct (uniq xs)"
  by (induction xs rule: uniq.induct) (auto simp: set_uniq)


lemma insort_key_map: "insort_key f (g x) (map g xs) = map g (insort_key (\<lambda>a. f (g a)) x xs)"
  by (induction xs) auto

lemma sort_key_map: "sort_key f (map g xs) = map g (sort_key (\<lambda>a. f (g a)) xs)"
  by (induction xs) (auto simp: insort_key_map)

lemma precedes_filter: "P x \<Longrightarrow> P y \<Longrightarrow> precedes x y (filter P zs) = precedes x y zs"
  by (induction zs) auto

lemma precedes_sorted:
  "sorted (map f zs) \<Longrightarrow> x \<in> set zs \<Longrightarrow> y \<in> set zs \<Longrightarrow> f x < f y \<Longrightarrow> precedes x y zs"
proof (induction zs)
  case Nil
  then show ?case by simp
next
  case (Cons z zs)
  show ?case
  proof (cases "z = x")
    case True
    with Cons.prems have "y \<in> set zs" by auto
    with True show ?thesis by simp
  next
    case False
    with Cons.prems have x: "x \<in> set zs" by simp
    have "y \<noteq> z"
    proof
      assume "y = z"
      with Cons.prems(1) x have "f y \<le> f x" by auto
      with Cons.prems(4) show False by simp
    qed
    with Cons.prems have "y \<in> set zs" by simp
    with Cons x show ?thesis by simp
  qed
qed

lemma distinct_domainNames: "distinct domainNames"
  by (simp add: domainNames_def DOMAIN_KEYWORDS_def)

lemma domainNames_eq:
  "domainNames = [''labour'', ''health'', ''housing'', ''education'', ''ageing'', ''inequality'', ''population'']"
  by (simp add: domainNames_def DOMAIN_KEYWORDS_def)

lemma scoreOf_row:
  assumes "(d, terms) \<in> set DOMAIN_KEYWORDS"
  shows "scoreOf query kws d = domainScore query kws (d, terms)"
proof -
  have "distinct (map fst DOMAIN_KEYWORDS)"
    using distinct_domainNames by (simp add: domainNames_def)
  with assms have "map_of DOMAIN_KEYWORDS d = Some terms" by simp
  then show ?thesis by (simp add: scoreOf_def)
qed

lemma domainScores_names:
  "domainScores query kws =
     map (\<lambda>d. (d, scoreOf query kws d)) (filter (\<lambda>d. 0 < scoreOf query kws d) domainNames)"
proof -
  have "map (\<lambda>row. (fst row, domainScore query kws row)) DOMAIN_KEYWORDS
        = map (\<lambda>row. (fst row, scoreOf query kws (fst row))) DOMAIN_KEYWORDS"
    by (rule map_cong) (auto simp: scoreOf_row)
  then have "domainScores query kws =
      filter (\<lambda>(domain, score). score > 0)
        (map (\<lambda>row. (fst row, scoreOf query kws (fst row))) DOMAIN_KEYWORDS)"
    by (simp only: domainScores_def)
  then show ?thesis
    by (simp add: domainNames_def filter_map comp_def)
qed

lemma detectDomains_names:
  "detectDomains query kws =
     sort_key (\<lambda>d. - scoreOf query kws d) (filter (\<lambda>d. 0 < scoreOf query kws d) domainNames)"
  by (simp add: detectDomains_def domainScores_names sort_key_map comp_def)

lemma domainScore_count:
  assumes "distinct kws"
  shows "domainScore query kws (d, terms) =
     int (card {kw \<in> set kws. \<exists>dk \<in> set terms. str_includes dk kw \<or> str_includes kw dk})
     + (if str_includes query d then 2 else 0)"
proof -
  let ?P = "\<lambda>kw. \<exists>dk \<in> set terms. str_includes dk kw \<or> str_includes kw dk"
  have "length (filter ?P kws) = card {kw \<in> set kws. ?P kw}"
    using assms by (simp add: distinct_length_filter Int_def conj_commute)
  then show ?thesis
    by (simp add: domainScore_def list_ex_iff)
qed

text \<open>
  C5. For every query text and keyword list, each of the seven domains of the table gets
  as score the number of keywords that are a substring of, or contain, one of the domain's
  terms, plus 2 if the domain name occurs in the text. Exactly the domains with a positive
  score are returned, each once; a domain with a strictly higher score precedes one with
  a lower score, and domains with equal scores keep the order of the table.
\<close>

theorem detectDomains_scores_and_order:
  "domainNames = [''labour'', ''health'', ''housing'', ''education'', ''ageing'',
                  ''inequality'', ''population'']
   \<and> (\<forall>(d, terms) \<in> set DOMAIN_KEYWORDS.
        scoreOf query kws d = domainScore query kws (d, terms)
        \<and> (distinct kws \<longrightarrow>
             domainScore query kws (d, terms) =
               int (card {kw \<in> set kws. \<exists>dk \<in> set terms. str_includes dk kw \<or> str_includes kw dk})
               + (if str_includes query d then 2 else 0)))
   \<and> set (detectDomains query kws) = {d \<in> set domainNames. 0 < scoreOf query kws d}
   \<and> distinct (detectDomains query kws)
   \<and> (\<forall>X Y. X \<in> set (detectDomains query kws) \<and> Y \<in> set (detectDomains query kws)
          \<and> scoreOf query kws Y < scoreOf query kws X
        \<longrightarrow> precedes X Y (detectDomains query kws))
   \<and> (\<forall>X Y. X \<in> set (detectDomains query kws) \<and> Y \<in> set (detectDomains query kws)
          \<and> scoreOf query kws X = scoreOf query kws Y \<and> precedes X Y domainNames
        \<longrightarrow> precedes X Y (detectDomains query kws))"
proof -
  let ?f = "\<lambda>d. - scoreOf query kws d"
  let ?pos = "filter (\<lambda>d. 0 < scoreOf query kws d) domainNames"
  let ?res = "detectDomains query kws"
  have res: "?res = sort_key ?f ?pos" by (rule detectDomains_names)
  have rows: "\<forall>(d, terms) \<in> set DOMAIN_KEYWORDS.
        scoreOf query kws d = domainScore query kws (d, terms)
        \<and> (distinct kws \<longrightarrow>
             domainScore query kws (d, terms) =
               int (card {kw \<in> set kws. \<exists>dk \<in> set terms. str_includes dk kw \<or> str_includes kw dk})
               + (if str_includes query d then 2 else 0))"
    using scoreOf_row domainScore_count by blast
  have mem: "set ?res = {d \<in> set domainNames. 0 < scoreOf query kws d}"
    by (auto simp: res)
  have dist: "distinct ?res"
    by (simp add: res distinct_domainNames)
  have strict: "precedes X Y ?res"
    if "X \<in> set ?res" "Y \<in> set ?res" "scoreOf query kws Y < scoreOf query kws X" for X Y
  proof -
    have s: "sorted (map ?f ?res)" unfolding res by (rule sorted_sort_key)
    have lt: "?f X < ?f Y" using that(3) by simp
    show ?thesis by (rule precedes_sorted [OF s that(1) that(2) lt])
  qed
  have ties: "precedes X Y ?res"
    if "X \<in> set ?res" "Y \<in> set ?res" "scoreOf query kws X = scoreOf query kws Y"
       "precedes X Y domainNames" for X Y
  proof -
    let ?k = "?f X"
    have px: "0 < scoreOf query kws X" and py: "0 < scoreOf query kws Y"
      using that(1,2) mem by auto
    have kx: "?f X = ?k" and ky: "?f Y = ?k" using that(3) by simp_all
    have "precedes X Y ?pos"
      using precedes_filter [of "\<lambda>d. 0 < scoreOf query kws d" X Y domainNames] px py that(4)
      by simp
    then have "precedes X Y (filter (\<lambda>d. ?f d = ?k) ?pos)"
      using precedes_filter [of "\<lambda>d. ?f d = ?k" X Y ?pos] kx ky by simp
    then have "precedes X Y (filter (\<lambda>d. ?f d = ?k) ?res)"
      unfolding res by (simp only: sort_key_stable)
    then show ?thesis
      using precedes_filter [of "\<lambda>d. ?f d = ?k" X Y ?res] kx ky by simp
  qed
  show ?thesis
    using domainNames_eq rows mem dist strict ties by blast
qed

theorem detectDomains_scores_and_order_witness:
  "distinct [''elderly'', ''labour'']
   \<and> detectDomains ''elderly labour'' [''elderly'', ''labour''] = [''labour'', ''health'', ''ageing'']
   \<and> scoreOf ''elderly labour'' [''elderly'', ''labour''] ''labour'' = 3
   \<and> scoreOf ''elderly labour'' [''elderly'', ''labour''] ''health'' = 1
   \<and> scoreOf ''elderly labour'' [''elderly'', ''labour''] ''ageing'' = 1
   \<and> precedes ''health'' ''ageing'' domainNames
   \<and> precedes ''labour'' ''health'' (detectDomains ''elderly labour'' [''elderly'', ''labour''])
   \<and> precedes ''health'' ''ageing'' (detectDomains ''elderly labour'' [''elderly'', ''labour''])"
proof -
  let ?q = "''elderly labour''" and ?k = "[''elderly'', ''labour'']"
  have res: "detectDomains ?q ?k = [''labour'', ''health'', ''ageing'']"
    by (simp add: detectDomains_def domainScores_def domainScore_def DOMAIN_KEYWORDS_def)
  have sl: "scoreOf ?q ?k ''labour'' = 3"
    by (simp add: scoreOf_def domainScore_def DOMAIN_KEYWORDS_def)
  have sh: "scoreOf ?q ?k ''health'' = 1"
    by (simp add: scoreOf_def domainScore_def DOMAIN_KEYWORDS_def)
  have sa: "scoreOf ?q ?k ''ageing'' = 1"
    by (simp add: scoreOf_def domainScore_def DOMAIN_KEYWORDS_def)
  have tab: "precedes ''health'' ''ageing'' domainNames"
    by (simp add: domainNames_def DOMAIN_KEYWORDS_def)
  have mem: "''labour'' \<in> set (detectDomains ?q ?k)" "''health'' \<in> set (detectDomains ?q ?k)"
    "''ageing'' \<in> set (detectDomains ?q ?k)"
    by (simp_all add: res)
  note spec = detectDomains_scores_and_order [of ?q ?k]
  have p1: "precedes ''labour'' ''health'' (detectDomains ?q ?k)"
    using spec mem sl sh by simp
  have p2: "precedes ''health'' ''ageing'' (detectDomains ?q ?k)"
    using spec mem sh sa tab by simp
  show ?thesis using res sl sh sa tab p1 p2 by simp
qed

section \<open>Properties of the search handler\<close>

lemma sample_parse_values:
  "sample_parse ''[]'' = Some []"
  "sample_parse (stringify [''employ'']) = Some [''employ'']"
  "sample_parse (stringify [''labour force'']) = Some [''labour force'']"
  "sample_parse (stringify [''labour'']) = Some [''labour'']"
  "sample_parse (stringify [''labour'', ''labour market'']) = Some [''labour'', ''labour market'']"
  "sample_parse (stringify [''health'']) = Some [''health'']"
  "sample_parse (stringify [''health'', ''ageing'']) = Some [''health'', ''ageing'']"
  by (simp_all add: sample_parse_def sample_arrays_def stringify_def quoted_def)

lemma or_empty_array_stringify: "or_empty_array (stringify xs) = stringify xs"
  by (simp add: or_empty_array_def stringify_def)

lemma fold_add_count:
  "fold (\<lambda>x (s::int). if P x then s + c else s) xs s0 = s0 + c * int (length (filter P xs))"
  by (induction xs arbitrary: s0) (auto simp: algebra_simps)

lemma calculateRelevanceScore_value:
  assumes "JSON_parse (or_empty_array (ds_keywords dataset)) = Some kws"
  shows "calculateRelevanceScore JSON_parse dataset query searchTerms =
     Inr ((if str_includes (toLowerCase (ds_name dataset)) (toLowerCase query) then 100 else 0)
          + (if str_includes (toLowerCase (ds_description dataset)) (toLowerCase query) then 50 else 0)
          + 25 * int (length (filter (\<lambda>term.
              \<exists>keyword \<in> set kws. str_includes (toLowerCase keyword) term) searchTerms))
          + 20 * int (length (filter (\<lambda>tag.
              str_includes (toLowerCase (tag_name tag)) (toLowerCase query)) (ds_tags dataset)))
          + 10 * (int (length (relatedFrom dataset)) + int (length (relatedTo dataset))))"
  using assms
  by (simp add: calculateRelevanceScore_def parse_or_throw_def bind_err_def Let_def
      fold_add_count list_ex_iff)

text \<open>
  C1 (as the code has it). For every dataset whose stored keywords text parses, every
  query text and every list of search terms, the relevance score is 100 if the lower-cased
  name contains the lower-cased query, plus 50 if the lower-cased description does, plus 25
  for each search term that is a substring of the lower-cased form of at least one keyword
  of the dataset (containment the other way round does not count), plus 20 for each tag
  whose lower-cased name contains the lower-cased query, plus 10 times the number of
  relations in either direction.
\<close>

theorem calculateRelevanceScore_one_way:
  "JSON_parse (or_empty_array (ds_keywords dataset)) = Some kws \<Longrightarrow>
   calculateRelevanceScore JSON_parse dataset query searchTerms =
     Inr ((if str_includes (toLowerCase (ds_name dataset)) (toLowerCase query) then 100 else 0)
          + (if str_includes (toLowerCase (ds_description dataset)) (toLowerCase query) then 50 else 0)
          + 25 * int (length (filter (\<lambda>term.
              \<exists>keyword \<in> set kws. str_includes (toLowerCase keyword) term) searchTerms))
          + 20 * int (length (filter (\<lambda>tag.
              str_includes (toLowerCase (tag_name tag)) (toLowerCase query)) (ds_tags dataset)))
          + 10 * (int (length (relatedFrom dataset)) + int (length (relatedTo dataset))))"
  by (rule calculateRelevanceScore_value)

lemma lower_simps:
  "toLowerCase ''employ'' = ''employ''"
  "toLowerCase ''employment'' = ''employment''"
  "toLowerCase ''Dataset A'' = ''dataset a''"
  "toLowerCase ''About A'' = ''about a''"
  "toLowerCase ''labour force'' = ''labour force''"
  "toLowerCase ''labour'' = ''labour''"
  "toLowerCase ''labour market'' = ''labour market''"
  by (simp_all add: toLowerCase_def lower_char_def is_upper_def code_unit_def)

theorem calculateRelevanceScore_one_way_witness:
  "sample_parse (or_empty_array (ds_keywords employ_dataset)) = Some [''employ'']
   \<and> calculateRelevanceScore sample_parse employ_dataset ''employ'' [''employ'', ''ploy'', ''employment''] = Inr 50"
proof -
  have p: "sample_parse (or_empty_array (ds_keywords employ_dataset)) = Some [''employ'']"
    by (simp add: employ_dataset_def with_relations_def sample_dataset_def dataset.defs
        or_empty_array_stringify sample_parse_values)
  show ?thesis
    using calculateRelevanceScore_one_way [of sample_parse employ_dataset "[''employ'']"
        "''employ''" "[''employ'', ''ploy'', ''employment'']"] p
    by (simp add: employ_dataset_def with_relations_def sample_dataset_def dataset.defs lower_simps)
qed

text \<open>
  C1 as stated fails: the search term \<open>employment\<close> contains the keyword \<open>employ\<close>,
  so mutual containment would add 25, and the code adds nothing.
\<close>

theorem calculateRelevanceScore_mutual_counterexample:
  "sample_parse (or_empty_array (ds_keywords employ_dataset)) = Some [''employ'']
   \<and> calculateRelevanceScore sample_parse employ_dataset ''employment'' [''employment''] = Inr 0
   \<and> spec_relevance [''employ''] employ_dataset ''employment'' [''employment''] = 25"
proof -
  have p: "sample_parse (or_empty_array (ds_keywords employ_dataset)) = Some [''employ'']"
    by (simp add: employ_dataset_def with_relations_def sample_dataset_def dataset.defs
        or_empty_array_stringify sample_parse_values)
  have c: "calculateRelevanceScore sample_parse employ_dataset ''employment'' [''employment''] = Inr 0"
    using calculateRelevanceScore_value [of sample_parse employ_dataset "[''employ'']"
        "''employment''" "[''employment'']"] p
    by (simp add: employ_dataset_def with_relations_def sample_dataset_def dataset.defs lower_simps)
  have s: "spec_relevance [''employ''] employ_dataset ''employment'' [''employment''] = 25"
    by (simp add: spec_relevance_def employ_dataset_def with_relations_def sample_dataset_def
        dataset.defs lower_simps)
  show ?thesis using p c s by simp
qed

lemma length_filter_disj:
  "length (filter (\<lambda>x. A x \<or> B x) xs)
     = length (filter A xs) + length (filter (\<lambda>x. B x \<and> \<not> A x) xs)"
  by (induction xs) auto

text \<open>
  C7 (as the code has it). Adding one keyword to the keywords of a dataset, all else
  equal, raises the relevance score by 25 for every search term that the lower-cased new
  keyword contains and that no keyword of the dataset contained before: by exactly 25 when
  there is one such term, by nothing when there is none.
\<close>

theorem added_keyword_score_change:
  assumes "JSON_parse (or_empty_array (ds_keywords dataset)) = Some kws"
    and "JSON_parse (or_empty_array text) = Some kws'"
    and "set kws' = insert k (set kws)"
  shows "\<exists>s. calculateRelevanceScore JSON_parse dataset query searchTerms = Inr s
     \<and> calculateRelevanceScore JSON_parse (dataset\<lparr>ds_keywords := text\<rparr>) query searchTerms =
         Inr (s + 25 * int (length (filter (\<lambda>term.
                str_includes (toLowerCase k) term
                \<and> \<not> (\<exists>keyword \<in> set kws. str_includes (toLowerCase keyword) term)) searchTerms)))"
proof -
  let ?old = "\<lambda>term. \<exists>keyword \<in> set kws. str_includes (toLowerCase keyword) term"
  let ?new = "\<lambda>term. str_includes (toLowerCase k) term"
  have "(\<lambda>term. \<exists>keyword \<in> set kws'. str_includes (toLowerCase keyword) term)
          = (\<lambda>term. ?old term \<or> ?new term)"
    using assms(3) by auto
  then have count: "length (filter (\<lambda>term. \<exists>keyword \<in> set kws'. str_includes (toLowerCase keyword) term) searchTerms)
      = length (filter ?old searchTerms) + length (filter (\<lambda>term. ?new term \<and> \<not> ?old term) searchTerms)"
    by (simp only: length_filter_disj)
  have p': "JSON_parse (or_empty_array (ds_keywords (dataset\<lparr>ds_keywords := text\<rparr>))) = Some kws'"
    using assms(2) by simp
  show ?thesis
    by (simp add: calculateRelevanceScore_value [of JSON_parse dataset kws, OF assms(1)]
        calculateRelevanceScore_value [of JSON_parse "dataset\<lparr>ds_keywords := text\<rparr>" kws', OF p']
        count algebra_simps)
qed

theorem added_keyword_score_change_witness:
  "sample_parse (or_empty_array (ds_keywords plain_dataset)) = Some []
   \<and> sample_parse (or_empty_array (stringify [''labour''])) = Some [''labour'']
   \<and> set [''labour''] = insert ''labour'' (set [])
   \<and> (\<exists>s. calculateRelevanceScore sample_parse plain_dataset ''jobs'' [''labour'', ''force''] = Inr s
        \<and> calculateRelevanceScore sample_parse (plain_dataset\<lparr>ds_keywords := stringify [''labour'']\<rparr>)
             ''jobs'' [''labour'', ''force''] = Inr (s + 25))"
proof -
  have p: "sample_parse (or_empty_array (ds_keywords plain_dataset)) = Some []"
    by (simp add: plain_dataset_def with_relations_def sample_dataset_def dataset.defs
        or_empty_array_def sample_parse_values)
  have p': "sample_parse (or_empty_array (stringify [''labour''])) = Some [''labour'']"
    by (simp add: or_empty_array_stringify sample_parse_values)
  have s: "set [''labour''] = insert ''labour'' (set [])" by simp
  show ?thesis
    using added_keyword_score_change [of sample_parse plain_dataset "[]" "stringify [''labour'']"
        "[''labour'']" "''labour''" "''jobs''" "[''labour'', ''force'']", OF p p' s] p p'
    by (simp add: lower_simps)
qed

text \<open>
  C7 as stated fails: the added keyword \<open>labour force\<close> matches both search terms and
  raises the score by 50.
\<close>

theorem added_keyword_exactly_25_counterexample:
  "sample_parse (or_empty_array (ds_keywords plain_dataset)) = Some []
   \<and> sample_parse (or_empty_array (stringify [''labour force''])) = Some [''labour force'']
   \<and> str_includes (toLowerCase ''labour force'') ''labour''
   \<and> str_includes (toLowerCase ''labour force'') ''force''
   \<and> calculateRelevanceScore sample_parse plain_dataset ''jobs'' [''labour'', ''force''] = Inr 0
   \<and> calculateRelevanceScore sample_parse (plain_dataset\<lparr>ds_keywords := stringify [''labour force'']\<rparr>)
        ''jobs'' [''labour'', ''force''] = Inr 50"
proof -
  have p: "sample_parse (or_empty_array (ds_keywords plain_dataset)) = Some []"
    by (simp add: plain_dataset_def with_relations_def sample_dataset_def dataset.defs
        or_empty_array_def sample_parse_values)
  have p': "sample_parse (or_empty_array (stringify [''labour force''])) = Some [''labour force'']"
    by (simp add: or_empty_array_stringify sample_parse_values)
  have p'': "sample_parse (or_empty_array (ds_keywords (plain_dataset\<lparr>ds_keywords := stringify [''labour force'']\<rparr>)))
      = Some [''labour force'']"
    using p' by simp
  have a: "calculateRelevanceScore sample_parse plain_dataset ''jobs'' [''labour'', ''force''] = Inr 0"
    using calculateRelevanceScore_value [of sample_parse plain_dataset "[]" "''jobs''" "[''labour'', ''force'']"] p
    by (simp add: plain_dataset_def with_relations_def sample_dataset_def dataset.defs lower_simps
        toLowerCase_def lower_char_def is_upper_def code_unit_def)
  have b: "calculateRelevanceScore sample_parse (plain_dataset\<lparr>ds_keywords := stringify [''labour force'']\<rparr>)
        ''jobs'' [''labour'', ''force''] = Inr 50"
    using calculateRelevanceScore_value [of sample_parse "plain_dataset\<lparr>ds_keywords := stringify [''labour force'']\<rparr>"
        "[''labour force'']" "''jobs''" "[''labour'', ''force'']"] p''
    by (simp add: plain_dataset_def with_relations_def sample_dataset_def dataset.defs lower_simps
        toLowerCase_def lower_char_def is_upper_def code_unit_def)
  show ?thesis using p p' a b by (simp add: lower_simps)
qed

lemma split_space_nonempty: "split_space s \<noteq> []"
  by (induction s) (auto split: list.splits)

lemma split_space_no_space: "t \<in> set (split_space s) \<Longrightarrow> CHR '' '' \<notin> set t"
proof (induction s arbitrary: t)
  case Nil
  then show ?case by simp
next
  case (Cons c cs)
  show ?case
  proof (cases "c = CHR '' ''")
    case True
    with Cons show ?thesis by auto
  next
    case False
    obtain u us where u: "split_space cs = u # us"
      using split_space_nonempty [of cs] by (cases "split_space cs") auto
    with False Cons.prems have "t = c # u \<or> t \<in> set us" by simp
    then show ?thesis
    proof
      assume "t = c # u"
      moreover have "CHR '' '' \<notin> set u" using Cons.IH [of u] u by simp
      ultimately show ?thesis using False by auto
    next
      assume "t \<in> set us"
      then show ?thesis using Cons.IH [of t] u by simp
    qed
  qed
qed

lemma join_space_Cons: "ts \<noteq> [] \<Longrightarrow> join_space (t # ts) = t @ CHR '' '' # join_space ts"
  by (cases ts) auto

lemma join_split_space: "join_space (split_space s) = s"
proof (induction s)
  case Nil
  then show ?case by simp
next
  case (Cons c cs)
  obtain u us where u: "split_space cs = u # us"
    using split_space_nonempty [of cs] by (cases "split_space cs") auto
  show ?case
  proof (cases "c = CHR '' ''")
    case True
    then show ?thesis using Cons split_space_nonempty [of cs] by (simp add: join_space_Cons)
  next
    case False
    show ?thesis
    proof (cases us)
      case Nil
      with False u Cons show ?thesis by simp
    next
      case (Cons v vs)
      with False u Cons.IH show ?thesis by simp
    qed
  qed
qed

text \<open>
  C2 (as the code has it). The interpretation step of the search handler always yields a
  query: the interpreter's own result when nothing is thrown, and otherwise the fallback
  whose keywords are the raw text split at every single space character (the pieces hold
  no space and joined by spaces give the text back), with no domains, no entities, intent
  search and confidence 0.5.
\<close>

theorem nlp_never_fails_fallback:
  "fst (GET_nlp query) = processQuery query
   \<and> try_nlp (Inl e) query =
       (\<lparr>originalQuery = query, query_keywords = split_space query, query_domains = [],
         intent = Search, entities = [], confidence = 0.5\<rparr>, [], [])
   \<and> join_space (split_space query) = query
   \<and> (\<forall>t \<in> set (split_space query). CHR '' '' \<notin> set t)"
  using split_space_no_space
  by (simp add: GET_nlp_def try_nlp_def nlp_fallback_def join_split_space)

theorem nlp_never_fails_fallback_witness:
  "split_space ''a  b'' = [''a'', [], ''b'']
   \<and> ''a'' \<in> set (split_space ''a  b'') \<and> CHR '' '' \<notin> set ''a''
   \<and> query_keywords (fst (try_nlp (Inl NlpError) ''a  b'')) = [''a'', [], ''b'']"
proof -
  have v: "split_space ''a  b'' = [''a'', [], ''b'']" by simp
  have m: "''a'' \<in> set (split_space ''a  b'')" by (simp add: v)
  have "CHR '' '' \<notin> set ''a''"
    using nlp_never_fails_fallback [of "''a  b''" NlpError] m by blast
  moreover have "query_keywords (fst (try_nlp (Inl NlpError) ''a  b'')) = [''a'', [], ''b'']"
    using nlp_never_fails_fallback [of "''a  b''" NlpError] v by simp
  ultimately show ?thesis using v m by simp
qed

text \<open>
  C2 as stated fails: a text with a tab between two words is one fallback keyword, while
  splitting on white space gives two.
\<close>

theorem nlp_fallback_whitespace_counterexample:
  "query_keywords (fst (try_nlp (Inl NlpError) [CHR ''a'', CHR 0x09, CHR ''b'']))
     = [CHR ''a'', CHR 0x09, CHR ''b''] # Nil
   \<and> split_ws [CHR ''a'', CHR 0x09, CHR ''b''] = [''a'', ''b'']
   \<and> query_keywords (fst (try_nlp (Inl NlpError) [CHR ''a'', CHR 0x09, CHR ''b'']))
       \<noteq> split_ws [CHR ''a'', CHR 0x09, CHR ''b'']"
  by (simp add: try_nlp_def nlp_fallback_def split_ws_def is_space_def code_unit_def)

section \<open>Properties of double-precision arithmetic\<close>

lemma round_half_even_eval:
  "round_half_even z =
     (if z - of_int \<lfloor>z\<rfloor> < 1 / 2 then \<lfloor>z\<rfloor>
      else if 1 / 2 < z - of_int \<lfloor>z\<rfloor> then \<lfloor>z\<rfloor> + 1
      else if even \<lfloor>z\<rfloor> then \<lfloor>z\<rfloor> else \<lfloor>z\<rfloor> + 1)"
  by (simp add: round_half_even_def Let_def)

lemma round_double_eval:
  "round_double x =
     (if x = 0 then 0 else of_int (round_half_even (x / ulp \<bar>x\<bar>)) * ulp \<bar>x\<bar>)"
  by (simp add: round_double_def Let_def)

lemmas double_eval = lit_def fadd_def fmul_def round_double_eval ulp_def round_half_even_eval
  halvings.simps doublings.simps

lemma lit_values:
  "lit 0.1 = 3602879701896397 / 36028797018963968"
  "lit 0.2 = 3602879701896397 / 18014398509481984"
  "lit 0.3 = 5404319552844595 / 18014398509481984"
  "lit 0.25 = 1 / 4"
  "lit 0.5 = 1 / 2"
  "lit 0.15 = 5404319552844595 / 36028797018963968"
  "lit 0.6 = 5404319552844595 / 9007199254740992"
  "lit 0.7 = 3152519739159347 / 4503599627370496"
  "lit 0.8 = 3602879701896397 / 4503599627370496"
  "lit 0.9 = 8106479329266893 / 9007199254740992"
  "lit (1 / 5) = 3602879701896397 / 18014398509481984"
  "lit (1 / 4) = 1 / 4"
  "lit (1 / 2) = 1 / 2"
  "lit (3 / 20) = 5404319552844595 / 36028797018963968"
  "lit (3 / 5) = 5404319552844595 / 9007199254740992"
  "lit (4 / 5) = 3602879701896397 / 4503599627370496"
  by (simp_all add: double_eval)

lemma halvings_bounds: "1 \<le> x \<Longrightarrow> 2 ^ halvings x \<le> x \<and> x < 2 ^ Suc (halvings x)"
proof (induction x rule: halvings.induct)
  case (1 x)
  show ?case
  proof (cases "x < 2")
    case True
    with "1.prems" show ?thesis by (simp add: halvings.simps)
  next
    case False
    then have "1 \<le> x / 2" by simp
    with "1.IH" False have "2 ^ halvings (x / 2) \<le> x / 2 \<and> x / 2 < 2 ^ Suc (halvings (x / 2))"
      by simp
    moreover have "halvings x = Suc (halvings (x / 2))"
      using False by (subst halvings.simps) simp
    ultimately show ?thesis by simp
  qed
qed

lemma doublings_bounds:
  "0 < x \<Longrightarrow> x < 1 \<Longrightarrow> 1 \<le> x * 2 ^ doublings x \<and> x * 2 ^ doublings x < 2"
proof (induction x rule: doublings.induct)
  case (1 x)
  have d: "doublings x = Suc (doublings (2 * x))"
    using "1.prems" by (subst doublings.simps) simp
  show ?case
  proof (cases "2 * x < 1")
    case True
    with "1.IH" "1.prems" have "1 \<le> 2 * x * 2 ^ doublings (2 * x) \<and> 2 * x * 2 ^ doublings (2 * x) < 2"
      by simp
    with d show ?thesis by (simp add: mult.assoc mult.left_commute)
  next
    case False
    then have "doublings (2 * x) = 0" by (subst doublings.simps) simp
    with d False "1.prems" show ?thesis by simp
  qed
qed

lemma ulp_bounds:
  assumes "0 < x"
  shows "0 < ulp x" and "ulp x * 2 ^ 52 \<le> x" and "x < ulp x * 2 ^ 53"
proof -
  show "0 < ulp x" by (simp add: ulp_def)
  show "ulp x * 2 ^ 52 \<le> x"
  proof (cases "1 \<le> x")
    case True
    with halvings_bounds [of x] show ?thesis by (simp add: ulp_def)
  next
    case False
    with assms doublings_bounds [of x] have "1 \<le> x * 2 ^ doublings x" by simp
    with False show ?thesis by (simp add: ulp_def field_simps)
  qed
  show "x < ulp x * 2 ^ 53"
  proof (cases "1 \<le> x")
    case True
    with halvings_bounds [of x] show ?thesis by (simp add: ulp_def)
  next
    case False
    with assms doublings_bounds [of x] have "x * 2 ^ doublings x < 2" by simp
    with False show ?thesis by (simp add: ulp_def field_simps)
  qed
qed


lemma round_half_even_error: "\<bar>of_int (round_half_even z) - z\<bar> \<le> 1 / 2"
  unfolding round_half_even_def Let_def by (auto; linarith)


lemma round_double_error: "\<bar>round_double x - x\<bar> \<le> \<bar>x\<bar> / 2 ^ 53"
proof (cases "x = 0")
  case True
  then show ?thesis by (simp add: round_double_def)
next
  case False
  define u where "u = ulp \<bar>x\<bar>"
  have u: "0 < u" "u * 2 ^ 52 \<le> \<bar>x\<bar>"
    using ulp_bounds [of "\<bar>x\<bar>"] False by (simp_all add: u_def)
  have "round_double x - x = (of_int (round_half_even (x / u)) - x / u) * u"
    using False u(1) by (simp add: round_double_def u_def [symmetric] Let_def field_simps)
  then have "\<bar>round_double x - x\<bar> = \<bar>of_int (round_half_even (x / u)) - x / u\<bar> * u"
    using u(1) by (simp add: abs_mult)
  also have "\<dots> \<le> (1 / 2) * u"
    using round_half_even_error [of "x / u"] u(1) by (intro mult_right_mono) simp_all
  also have "\<dots> \<le> \<bar>x\<bar> / 2 ^ 53" using u(2) by simp
  finally show ?thesis .
qed



text \<open>Error propagation.\<close>

lemma unit_roundoff_bounds: "0 \<le> unit_roundoff" "unit_roundoff \<le> 1"
  "0 \<le> 1 - unit_roundoff" "0 \<le> 1 + unit_roundoff"
  "1 - unit_roundoff \<le> 1" "1 \<le> 1 + unit_roundoff"
  by (simp_all add: unit_roundoff_def)

lemma round_double_relative:
  assumes "0 \<le> x"
  shows "x * (1 - unit_roundoff) \<le> round_double x" and "round_double x \<le> x * (1 + unit_roundoff)"
proof -
  have e: "\<bar>round_double x - x\<bar> \<le> x * unit_roundoff"
    using round_double_error [of x] assms by (simp add: unit_roundoff_def)
  then have "x - x * unit_roundoff \<le> round_double x" by linarith
  then show "x * (1 - unit_roundoff) \<le> round_double x" by (simp add: algebra_simps)
  from e have "round_double x \<le> x + x * unit_roundoff" by linarith
  then show "round_double x \<le> x * (1 + unit_roundoff)" by (simp add: algebra_simps)
qed

lemma approximates_exact: "0 \<le> X \<Longrightarrow> approximates 0 X X"
  by (simp add: approximates_def)

lemma approximates_nonneg: "approximates k x X \<Longrightarrow> 0 \<le> x"
proof -
  assume a: "approximates k x X"
  have "0 \<le> (1 - unit_roundoff) ^ k" using unit_roundoff_bounds(3) by (rule zero_le_power)
  with a have "0 \<le> X * (1 - unit_roundoff) ^ k" by (simp add: approximates_def)
  with a show ?thesis unfolding approximates_def by linarith
qed

lemma approximates_Suc: "approximates k x X \<Longrightarrow> approximates (Suc k) x X"
proof -
  assume a: "approximates k x X"
  then have X: "0 \<le> X" by (simp add: approximates_def)
  have p: "0 \<le> (1 - unit_roundoff) ^ k" "0 \<le> (1 + unit_roundoff) ^ k"
    using unit_roundoff_bounds by simp_all
  have "(1 - unit_roundoff) * (1 - unit_roundoff) ^ k \<le> 1 * (1 - unit_roundoff) ^ k"
    using unit_roundoff_bounds(5) p(1) by (rule mult_right_mono)
  then have lo: "X * (1 - unit_roundoff) ^ Suc k \<le> X * (1 - unit_roundoff) ^ k"
    using X by (simp add: mult_left_mono)
  have "1 * (1 + unit_roundoff) ^ k \<le> (1 + unit_roundoff) * (1 + unit_roundoff) ^ k"
    using unit_roundoff_bounds(6) p(2) by (rule mult_right_mono)
  then have hi: "X * (1 + unit_roundoff) ^ k \<le> X * (1 + unit_roundoff) ^ Suc k"
    using X by (simp add: mult_left_mono)
  from a lo hi show ?thesis unfolding approximates_def by linarith
qed

lemma approximates_mono: "approximates j x X \<Longrightarrow> j \<le> k \<Longrightarrow> approximates k x X"
  by (induction k) (auto simp: le_Suc_eq approximates_Suc)

lemma approximates_round: "approximates k x X \<Longrightarrow> approximates (Suc k) (round_double x) X"
proof -
  assume a: "approximates k x X"
  then have x: "0 \<le> x" by (rule approximates_nonneg)
  from a have X: "0 \<le> X" and lo: "X * (1 - unit_roundoff) ^ k \<le> x"
    and hi: "x \<le> X * (1 + unit_roundoff) ^ k"
    by (simp_all add: approximates_def)
  note r = round_double_relative [OF x]
  have "X * (1 - unit_roundoff) ^ k * (1 - unit_roundoff) \<le> x * (1 - unit_roundoff)"
    using lo unit_roundoff_bounds(3) by (rule mult_right_mono)
  moreover have "x * (1 + unit_roundoff) \<le> X * (1 + unit_roundoff) ^ k * (1 + unit_roundoff)"
    using hi unit_roundoff_bounds(4) by (rule mult_right_mono)
  moreover have "X * (1 - unit_roundoff) ^ Suc k = X * (1 - unit_roundoff) ^ k * (1 - unit_roundoff)"
    and "X * (1 + unit_roundoff) ^ Suc k = X * (1 + unit_roundoff) ^ k * (1 + unit_roundoff)"
    by simp_all
  ultimately show ?thesis
    using r X unfolding approximates_def by linarith
qed

lemma approximates_add:
  "approximates k x X \<Longrightarrow> approximates k y Y \<Longrightarrow> approximates k (x + y) (X + Y)"
  by (simp add: approximates_def distrib_right)

lemma approximates_scale:
  "0 \<le> c \<Longrightarrow> approximates k x X \<Longrightarrow> approximates k (c * x) (c * X)"
  by (simp add: approximates_def mult.assoc mult_left_mono)


lemma approximates_lit: "0 \<le> c \<Longrightarrow> approximates 1 (lit c) c"
  using approximates_round [OF approximates_exact, of c] by (simp add: lit_def)

lemma approximates_fadd:
  "approximates k x X \<Longrightarrow> approximates k y Y \<Longrightarrow> approximates (Suc k) (fadd x y) (X + Y)"
  unfolding fadd_def by (intro approximates_round approximates_add)

lemma approximates_count: "0 \<le> c \<Longrightarrow> approximates 2 (fmul (real n) (lit c)) (c * real n)"
proof -
  assume "0 \<le> c"
  then have "approximates 1 (real n * lit c) (real n * c)"
    by (intro approximates_scale approximates_lit) simp_all
  then have "approximates (Suc 1) (round_double (real n * lit c)) (real n * c)"
    by (rule approximates_round)
  then show ?thesis by (simp add: fmul_def mult.commute numeral_2_eq_2)
qed

lemma approximates_bound:
  assumes "approximates k x X" and "k \<le> 7"
  shows "\<bar>x - X\<bar> \<le> X / 2 ^ 50"
proof -
  from assms have a: "approximates 7 x X" by (rule approximates_mono)
  then have X: "0 \<le> X" by (simp add: approximates_def)
  have lo: "1 - 1 / 2 ^ 50 \<le> (1 - unit_roundoff) ^ 7"
    by (simp add: unit_roundoff_def power_numeral_reduce)
  have hi: "(1 + unit_roundoff) ^ 7 \<le> 1 + 1 / 2 ^ 50"
    by (simp add: unit_roundoff_def power_numeral_reduce)
  have "X * (1 - 1 / 2 ^ 50) \<le> X * (1 - unit_roundoff) ^ 7" using lo X by (rule mult_left_mono)
  then have l: "X - X / 2 ^ 50 \<le> X * (1 - unit_roundoff) ^ 7" by (simp add: algebra_simps)
  have "X * (1 + unit_roundoff) ^ 7 \<le> X * (1 + 1 / 2 ^ 50)" using hi X by (rule mult_left_mono)
  then have h: "X * (1 + unit_roundoff) ^ 7 \<le> X + X / 2 ^ 50" by (simp add: algebra_simps)
  from a have "X * (1 - unit_roundoff) ^ 7 \<le> x" "x \<le> X * (1 + unit_roundoff) ^ 7"
    by (simp_all add: approximates_def)
  with l h show ?thesis by linarith
qed

section \<open>Properties of the keywords and the confidence\<close>

















section \<open>Properties of the recommendation engine\<close>

lemma findIndex_at:
  "P x \<Longrightarrow> (findIndex P (pre @ x # ys) = int (length pre)) = (\<forall>p \<in> set pre. \<not> P p)"
  by (induction pre) (auto simp: Let_def)

lemma filter_indexed_keep_first_aux:
  "map fst (filter (\<lambda>(x, index). int index = findIndex (\<lambda>r. key r = key x) (pre @ xs) \<and> q x)
                   (zip xs [length pre ..< length pre + length xs]))
     = keep_first key q (key ` set pre) xs"
proof (induction xs arbitrary: pre)
  case Nil
  then show ?case by simp
next
  case (Cons x xs)
  have z: "zip (x # xs) [length pre ..< length pre + length (x # xs)]
             = (x, length pre) # zip xs [length (pre @ [x]) ..< length (pre @ [x]) + length xs]"
    by (simp add: upt_conv_Cons del: upt_Suc)
  have head: "(int (length pre) = findIndex (\<lambda>r. key r = key x) (pre @ x # xs))
                = (key x \<notin> key ` set pre)"
  proof -
    have "(key x \<notin> key ` set pre) = (\<forall>p \<in> set pre. \<not> key p = key x)" by (auto simp: image_iff)
    then show ?thesis
      using findIndex_at [of "\<lambda>r. key r = key x" x pre xs] by (simp add: eq_commute)
  qed
  have tail: "map fst (filter (\<lambda>(y, index). int index = findIndex (\<lambda>r. key r = key y) (pre @ x # xs) \<and> q y)
                   (zip xs [length (pre @ [x]) ..< length (pre @ [x]) + length xs]))
              = keep_first key q (key ` set (pre @ [x])) xs"
    using Cons.IH [of "pre @ [x]"] by simp
  show ?case
    unfolding z using head tail
    by (auto simp: insert_absorb)
qed

lemma filter_indexed_keep_first:
  "filter_indexed (\<lambda>x index. int index = findIndex (\<lambda>r. key r = key x) xs \<and> q x) xs
     = keep_first key q {} xs"
  using filter_indexed_keep_first_aux [of key "[]" xs q]
  by (simp add: filter_indexed_def)

lemma keep_first_subset:
  "x \<in> set (keep_first key q seen xs) \<Longrightarrow> x \<in> set xs \<and> q x \<and> key x \<notin> seen"
  by (induction xs arbitrary: seen) (auto split: if_splits)

lemma keep_first_distinct: "distinct (map key (keep_first key q seen xs))"
proof (induction xs arbitrary: seen)
  case Nil
  then show ?case by simp
next
  case (Cons a xs)
  have "key y \<noteq> key a" if "y \<in> set (keep_first key q (insert (key a) seen) xs)" for y
    using keep_first_subset [OF that] by simp
  then have "key a \<notin> key ` set (keep_first key q (insert (key a) seen) xs)"
    by force
  with Cons show ?case by auto
qed

lemma keep_first_find:
  "x \<in> set (keep_first key q seen xs) \<Longrightarrow> find (\<lambda>y. key y = key x) xs = Some x"
proof (induction xs arbitrary: seen)
  case Nil
  then show ?case by simp
next
  case (Cons a xs)
  show ?case
  proof (cases "key a \<in> seen")
    case True
    with Cons.prems have x: "x \<in> set (keep_first key q seen xs)" by simp
    then have "key x \<notin> seen" using keep_first_subset by fastforce
    with True have "key a \<noteq> key x" by auto
    with Cons.IH [OF x] show ?thesis by simp
  next
    case False
    with Cons.prems have "x = a \<or> x \<in> set (keep_first key q (insert (key a) seen) xs)"
      by (auto split: if_splits)
    then show ?thesis
    proof
      assume "x = a"
      then show ?thesis by simp
    next
      assume x: "x \<in> set (keep_first key q (insert (key a) seen) xs)"
      then have "key x \<notin> insert (key a) seen" using keep_first_subset by fastforce
      then have "key a \<noteq> key x" by auto
      with Cons.IH [OF x] show ?thesis by simp
    qed
  qed
qed

lemma distinct_map_insort_key:
  "distinct (map f (insort_key k x xs)) = (f x \<notin> f ` set xs \<and> distinct (map f xs))"
  by (induction xs) (auto simp: set_insort_key)

lemma distinct_map_sort_key: "distinct (map f (sort_key k xs)) = distinct (map f xs)"
  by (induction xs) (auto simp: distinct_map_insort_key)

lemma descending_sort_by_score: "descending (sort_by_score recs)"
proof -
  have "sorted (map (\<lambda>r. - score r) (sort_key (\<lambda>r. - score r) recs))"
    by (rule sorted_sort_key)
  then show ?thesis
    by (simp add: descending_def sort_by_score_def sorted_map sorted_wrt_iff_nth_less)
qed

lemma slice0_take: "\<exists>n. slice0 xs k = take n xs"
  by (auto simp: slice0_def)

lemma sorted_wrt_take_any: "sorted_wrt R xs \<Longrightarrow> sorted_wrt R (take n xs)"
proof -
  assume "sorted_wrt R xs"
  then have "sorted_wrt R (take n xs @ drop n xs)" by simp
  then show ?thesis unfolding sorted_wrt_append by simp
qed

lemma slice0_props:
  "set (slice0 xs k) \<subseteq> set xs"
  "distinct (map f xs) \<Longrightarrow> distinct (map f (slice0 xs k))"
  "sorted_wrt R xs \<Longrightarrow> sorted_wrt R (slice0 xs k)"
  "0 \<le> k \<Longrightarrow> int (length (slice0 xs k)) \<le> k"
proof -
  obtain n where n: "slice0 xs k = take n xs" using slice0_take by blast
  show "set (slice0 xs k) \<subseteq> set xs" unfolding n by (rule set_take_subset)
  show "distinct (map f xs) \<Longrightarrow> distinct (map f (slice0 xs k))"
    unfolding n by (simp add: take_map [symmetric])
  show "sorted_wrt R xs \<Longrightarrow> sorted_wrt R (slice0 xs k)"
    unfolding n by (rule sorted_wrt_take_any)
  show "0 \<le> k \<Longrightarrow> int (length (slice0 xs k)) \<le> k"
    by (simp add: slice0_def)
qed

text \<open>The pipeline shared by the three merging functions.\<close>

lemma pipeline_props:
  fixes recs :: "'a recommendation list"
  assumes out_def: "out = slice0 (sort_by_score (filter_indexed (\<lambda>rec index.
              int index = findIndex (\<lambda>r. rec_id r = rec_id rec) recs \<and> q rec) recs)) k"
  shows "distinct (map rec_id out)"
    and "descending out"
    and "\<forall>r \<in> set out. first_with_id recs r = Some r \<and> q r"
    and "0 \<le> k \<longrightarrow> int (length out) \<le> k"
proof -
  let ?kept = "keep_first rec_id q {} recs"
  have out: "out = slice0 (sort_by_score ?kept) k"
    unfolding out_def by (simp only: filter_indexed_keep_first)
  have d: "distinct (map rec_id (sort_by_score ?kept))"
    by (simp add: sort_by_score_def distinct_map_sort_key keep_first_distinct)
  show "distinct (map rec_id out)" unfolding out by (rule slice0_props(2) [OF d])
  show "descending out"
    unfolding out descending_def
    by (rule slice0_props(3)) (use descending_sort_by_score in \<open>simp add: descending_def\<close>)
  have "set out \<subseteq> set ?kept"
    unfolding out using slice0_props(1) [of "sort_by_score ?kept" k]
    by (simp add: sort_by_score_def)
  then show "\<forall>r \<in> set out. first_with_id recs r = Some r \<and> q r"
    using keep_first_find [of _ rec_id q "{}" recs] keep_first_subset [of _ rec_id q "{}" recs]
    by (auto simp: first_with_id_def)
  show "0 \<le> k \<longrightarrow> int (length out) \<le> k"
    unfolding out using slice0_props(4) by blast
qed

lemma uniqueRecommendations_props:
  "distinct (map rec_id (uniqueRecommendations recs limit))"
  "descending (uniqueRecommendations recs limit)"
  "\<forall>r \<in> set (uniqueRecommendations recs limit). first_with_id recs r = Some r"
  "0 \<le> limit \<longrightarrow> int (length (uniqueRecommendations recs limit)) \<le> limit"
  using pipeline_props [of "uniqueRecommendations recs limit" recs "\<lambda>r. True" limit]
  by (simp_all add: uniqueRecommendations_def)

lemma bind_err_Inr: "bind_err m f = Inr y \<longleftrightarrow> (\<exists>x. m = Inr x \<and> f x = Inr y)"
  by (cases m) (auto simp: bind_err_def)

lemma collect_err_Inr:
  "collect_err f xs = Inr ys \<Longrightarrow>
     (\<forall>x \<in> set xs. \<exists>zs. f x = Inr zs) \<and> (\<forall>y \<in> set ys. \<exists>x \<in> set xs. \<exists>zs. f x = Inr zs \<and> y \<in> set zs)"
proof (induction xs arbitrary: ys)
  case Nil
  then show ?case by simp
next
  case (Cons x xs)
  from Cons.prems obtain zs ws where 1: "f x = Inr zs" and 2: "collect_err f xs = Inr ws"
    and 3: "ys = zs @ ws"
    by (auto simp: bind_err_Inr)
  from Cons.IH [OF 2] 1 3 show ?case by auto
qed

lemma getRelatedRecommendations_Inr:
  assumes "getRelatedRecommendations st P datasetId limit = Inr out"
  shows "(findUnique st datasetId = Inr None \<and> out = [])
       \<or> (\<exists>cur cands. findUnique st datasetId = Inr (Some cur)
             \<and> relatedCandidates st P datasetId cur = Inr cands
             \<and> out = uniqueRecommendations cands limit)"
proof -
  from assms obtain found where f: "findUnique st datasetId = Inr found"
    and r: "(case found of None \<Rightarrow> Inr []
             | Some cur \<Rightarrow> bind_err (relatedCandidates st P datasetId cur)
                 (\<lambda>recommendations. Inr (uniqueRecommendations recommendations limit))) = Inr out"
    unfolding getRelatedRecommendations_def bind_err_Inr by blast
  show ?thesis
  proof (cases found)
    case None
    with f r show ?thesis by simp
  next
    case (Some cur)
    with r obtain cands where "relatedCandidates st P datasetId cur = Inr cands"
      and "out = uniqueRecommendations cands limit"
      by (auto simp: bind_err_Inr)
    with f Some show ?thesis by blast
  qed
qed

lemma getRelatedRecommendations_props:
  assumes "getRelatedRecommendations st P datasetId limit = Inr out"
  shows "distinct (map rec_id out)" "descending out" "0 \<le> limit \<longrightarrow> int (length out) \<le> limit"
proof -
  from getRelatedRecommendations_Inr [OF assms]
  have "out = [] \<or> (\<exists>cands. out = uniqueRecommendations cands limit)" by blast
  then show "distinct (map rec_id out)" "descending out" "0 \<le> limit \<longrightarrow> int (length out) \<le> limit"
  proof -
    assume "out = [] \<or> (\<exists>cands. out = uniqueRecommendations cands limit)"
    then consider "out = []" | cands where "out = uniqueRecommendations cands limit" by blast
    then show "distinct (map rec_id out)"
      by cases (simp_all add: uniqueRecommendations_props(1))
  next
    assume "out = [] \<or> (\<exists>cands. out = uniqueRecommendations cands limit)"
    then consider "out = []" | cands where "out = uniqueRecommendations cands limit" by blast
    then show "descending out"
      by cases (simp_all add: uniqueRecommendations_props(2), simp add: descending_def)
  next
    assume "out = [] \<or> (\<exists>cands. out = uniqueRecommendations cands limit)"
    then consider "out = []" | cands where "out = uniqueRecommendations cands limit" by blast
    then show "0 \<le> limit \<longrightarrow> int (length out) \<le> limit"
      by cases (simp_all add: uniqueRecommendations_props(4))
  qed
qed

text \<open>
  C10. When the store holds no dataset for an id, getRelatedRecommendations returns the
  empty list, whatever the limit.
\<close>

theorem related_unknown_id_empty:
  "findUnique st datasetId = Inr None \<Longrightarrow> getRelatedRecommendations st P datasetId limit = Inr []"
  by (simp add: getRelatedRecommendations_def bind_err_def)

theorem related_unknown_id_empty_witness:
  "findUnique sample_store ''Z'' = Inr None
   \<and> getRelatedRecommendations sample_store sample_parse ''Z'' 5 = Inr []"
proof -
  have h: "findUnique sample_store ''Z'' = Inr None" by (simp add: sample_store_def)
  show ?thesis using h related_unknown_id_empty [OF h, of sample_parse 5] by simp
qed

lemmas sample_defs =
  sample_store_def current_A_def current_B_def dataset_A_def dataset_B_def dataset_C_def
  relation_AB_def with_relations_def with_counts_def sample_dataset_def dataset.defs

lemma sample_ids:
  "rec_id direct_A = ''A''" "rec_id direct_B = ''B''"
  "rec_id (agency_sample dataset_A) = ''A''"
  "rec_id (agency_sample dataset_B) = ''B''"
  "rec_id (agency_sample dataset_C) = ''C''"
  by (simp_all add: rec_id_def direct_A_def direct_B_def agency_sample_def directRecommendation_def
      tolerant_out_def sample_defs)

lemma sample_scores:
  "score direct_A = 1" "score direct_B = 1"
  "score (agency_sample d) = 1080863910568919 / 18014398509481984"
  "score trending_C = 0" "score trending_A = 10"
proof -
  show "score direct_A = 1" "score direct_B = 1"
    by (simp_all add: direct_A_def direct_B_def directRecommendation_def)
  show "score (agency_sample d) = 1080863910568919 / 18014398509481984"
    by (simp add: agency_sample_def lit_values) (simp add: double_eval)
  show "score trending_C = 0" "score trending_A = 10"
    by (simp_all add: trending_A_def trending_C_def trendingRecommendation_def sample_defs)
       (simp_all add: double_eval)
qed

lemma sample_similarity:
  "calculateSimilarity sample_parse current_A dataset_B = Inr (3602879701896397 / 36028797018963968)"
  "calculateSimilarity sample_parse current_A dataset_C = Inr (3602879701896397 / 36028797018963968)"
  "calculateSimilarity sample_parse current_B dataset_A = Inr (3602879701896397 / 36028797018963968)"
  "calculateSimilarity sample_parse current_B dataset_C = Inr (3602879701896397 / 36028797018963968)"
  by (simp_all add: calculateSimilarity_def parse_or_throw_def or_empty_array_def bind_err_def
      sample_parse_values sample_defs arr_includes_def Let_def)
     (simp_all add: double_eval)

lemma sample_fields:
  "ds_id dataset_A = ''A''" "ds_id dataset_B = ''B''" "ds_id dataset_C = ''C''"
  "ds_agencyId current_A = ''X''" "ds_agencyId current_B = ''X''"
  "ds_agency_name current_A = ''Agency X''" "ds_agency_name current_B = ''Agency X''"
  "ds_domains current_A = ''[]''" "ds_domains current_B = ''[]''"
  "relatedFrom current_A = [relation_AB]" "relatedTo current_A = []"
  "relatedFrom current_B = []" "relatedTo current_B = [relation_AB]"
  "rel_to relation_AB = dataset_B" "rel_from relation_AB = dataset_A"
  "relationType relation_AB = ''feeds-into''"
  "rel_description relation_AB = Some ''A is an input of B''"
  by (simp_all add: current_A_def current_B_def dataset_A_def dataset_B_def dataset_C_def
      relation_AB_def with_relations_def sample_dataset_def dataset.defs)

lemma sample_queries:
  "findUnique sample_store ''A'' = Inr (Some current_A)"
  "findUnique sample_store ''B'' = Inr (Some current_B)"
  "findUnique sample_store ''Z'' = Inr None"
  "findManyAgencyExcept sample_store ''A'' ''X'' = Inr [dataset_B, dataset_C]"
  "findManyAgencyExcept sample_store ''B'' ''X'' = Inr [dataset_A, dataset_C]"
  "findManyRecent sample_store 2 = Inr [with_counts dataset_C 0 0, with_counts dataset_A 1 0]"
  "findManyApi sample_store = Inr []"
  by (simp_all add: sample_store_def sample_fields)

lemma sample_direct:
  "directRecommendations sample_parse current_A = [direct_B]"
  "directRecommendations sample_parse current_B = [direct_A]"
  by (simp_all add: directRecommendations_def direct_A_def direct_B_def sample_fields)

lemma sample_domain:
  "domainRecommendations sample_store sample_parse ''A'' current_A = Inr []"
  "domainRecommendations sample_store sample_parse ''B'' current_B = Inr []"
  by (simp_all add: domainRecommendations_def parse_or_throw_def or_empty_array_def bind_err_def
      sample_parse_values sample_fields)

lemma sample_agency:
  "agencyRecommendations sample_store sample_parse ''A'' current_A
      = Inr [agency_sample dataset_B, agency_sample dataset_C]"
  "agencyRecommendations sample_store sample_parse ''B'' current_B
      = Inr [agency_sample dataset_A, agency_sample dataset_C]"
  by (simp_all add: agencyRecommendations_def bind_err_def sample_queries sample_fields
      sample_similarity agency_sample_def lit_values)

lemma sample_candidates:
  "relatedCandidates sample_store sample_parse ''A'' current_A
     = Inr [direct_B, agency_sample dataset_B, agency_sample dataset_C]"
  "relatedCandidates sample_store sample_parse ''B'' current_B
     = Inr [direct_A, agency_sample dataset_A, agency_sample dataset_C]"
  by (simp_all add: relatedCandidates_def sample_direct sample_domain sample_agency bind_err_def)

lemma sample_unique:
  "uniqueRecommendations [direct_B, agency_sample dataset_B, agency_sample dataset_C] 5
     = [direct_B, agency_sample dataset_C]"
  "uniqueRecommendations [direct_B, agency_sample dataset_B, agency_sample dataset_C] 2
     = [direct_B, agency_sample dataset_C]"
  "uniqueRecommendations [direct_B, agency_sample dataset_B, agency_sample dataset_C] (- 1)
     = [direct_B]"
  "uniqueRecommendations [direct_A, agency_sample dataset_A, agency_sample dataset_C] 2
     = [direct_A, agency_sample dataset_C]"
  by (simp_all add: uniqueRecommendations_def filter_indexed_def sort_by_score_def slice0_def
      sample_ids sample_scores)

lemma sample_related:
  "getRelatedRecommendations sample_store sample_parse ''A'' 5 = Inr [direct_B, agency_sample dataset_C]"
  "getRelatedRecommendations sample_store sample_parse ''A'' 2 = Inr [direct_B, agency_sample dataset_C]"
  "getRelatedRecommendations sample_store sample_parse ''A'' (- 1) = Inr [direct_B]"
  "getRelatedRecommendations sample_store sample_parse ''B'' 2 = Inr [direct_A, agency_sample dataset_C]"
  by (simp_all add: getRelatedRecommendations_def bind_err_def sample_queries sample_candidates
      sample_unique)

lemma sample_complementary:
  "complementaryCandidates sample_store sample_parse [''A'', ''B'']
     = Inr [direct_B, agency_sample dataset_C, direct_A, agency_sample dataset_C]"
  "getComplementaryDatasets sample_store sample_parse [''A'', ''B''] = Inr [agency_sample dataset_C]"
proof -
  show c: "complementaryCandidates sample_store sample_parse [''A'', ''B'']
     = Inr [direct_B, agency_sample dataset_C, direct_A, agency_sample dataset_C]"
    by (simp add: complementaryCandidates_def bind_err_def sample_related)
  show "getComplementaryDatasets sample_store sample_parse [''A'', ''B''] = Inr [agency_sample dataset_C]"
    by (simp add: getComplementaryDatasets_def c bind_err_def filter_indexed_def sort_by_score_def
        slice0_def sample_ids sample_scores arr_includes_def)
qed

lemma sample_trending:
  "getTrendingDatasets sample_store sample_parse 2 = Inr [trending_C, trending_A]"
  by (simp add: getTrendingDatasets_def bind_err_def sample_queries trending_C_def trending_A_def)

lemma sample_search:
  "getSearchRecommendations sample_store sample_parse
     \<lparr>searchQuery = None, ctx_domains = None, ctx_keywords = None\<rparr> 5 = Inr []"
  by (simp add: getSearchRecommendations_def searchCandidates_def popularRecommendations_def
      keywordRecommendations_def apiRecommendations_def bind_err_def sample_queries
      uniqueRecommendations_def filter_indexed_def sort_by_score_def slice0_def)

text \<open>
  C8. The direct-relation step makes one recommendation for every relation of the seed, in
  either direction, for the dataset at the other end, with score 1, type related, and the
  reason "kind: description", the description replaced by "Direct relationship" when
  there is none (or an empty one). A seed with one outgoing feeds-into relation and no
  incoming relation gets exactly one, whose reason starts with "feeds-into:". These
  recommendations are the first candidates of getRelatedRecommendations.
\<close>

theorem direct_relations_one_each:
  "length (directRecommendations P cur) = length (relatedFrom cur) + length (relatedTo cur)
   \<and> map rec_id (directRecommendations P cur)
       = map (\<lambda>r. ds_id (rel_to r)) (relatedFrom cur) @ map (\<lambda>r. ds_id (rel_from r)) (relatedTo cur)
   \<and> map reason (directRecommendations P cur)
       = map (\<lambda>r. relationType r @ '': '' @
               (case rel_description r of
                  None \<Rightarrow> ''Direct relationship''
                | Some d \<Rightarrow> if d = [] then ''Direct relationship'' else d))
           (relatedFrom cur @ relatedTo cur)
   \<and> (\<forall>rec \<in> set (directRecommendations P cur). score rec = 1 \<and> rec_type rec = Related)
   \<and> (relatedTo cur = [] \<and> (\<exists>r. relatedFrom cur = [r] \<and> relationType r = ''feeds-into'') \<longrightarrow>
        (\<exists>rec. directRecommendations P cur = [rec] \<and> score rec = 1
               \<and> prefix ''feeds-into:'' (reason rec)))
   \<and> (relatedCandidates st P datasetId cur = Inr recs \<longrightarrow>
        prefix (directRecommendations P cur) recs)"
proof -
  have cand: "prefix (directRecommendations P cur) recs"
    if "relatedCandidates st P datasetId cur = Inr recs"
    using that by (auto simp: relatedCandidates_def bind_err_Inr)
  have rest: "length (directRecommendations P cur) = length (relatedFrom cur) + length (relatedTo cur)
   \<and> map rec_id (directRecommendations P cur)
       = map (\<lambda>r. ds_id (rel_to r)) (relatedFrom cur) @ map (\<lambda>r. ds_id (rel_from r)) (relatedTo cur)
   \<and> map reason (directRecommendations P cur)
       = map (\<lambda>r. relationType r @ '': '' @
               (case rel_description r of
                  None \<Rightarrow> ''Direct relationship''
                | Some d \<Rightarrow> if d = [] then ''Direct relationship'' else d))
           (relatedFrom cur @ relatedTo cur)
   \<and> (\<forall>rec \<in> set (directRecommendations P cur). score rec = 1 \<and> rec_type rec = Related)"
    by (auto simp: directRecommendations_def directRecommendation_def rec_id_def tolerant_out_def
        or_else_def comp_def)
  have one: "\<exists>rec. directRecommendations P cur = [rec] \<and> score rec = 1
               \<and> prefix ''feeds-into:'' (reason rec)"
    if "relatedTo cur = [] \<and> (\<exists>r. relatedFrom cur = [r] \<and> relationType r = ''feeds-into'')"
    using that by (auto simp: directRecommendations_def directRecommendation_def)
  show ?thesis using rest one cand by blast
qed

theorem direct_relations_one_each_witness:
  "relatedTo current_A = [] \<and> relatedFrom current_A = [relation_AB]
   \<and> relationType relation_AB = ''feeds-into''
   \<and> relatedCandidates sample_store sample_parse ''A'' current_A
        = Inr [direct_B, agency_sample dataset_B, agency_sample dataset_C]
   \<and> direct_B \<in> set (directRecommendations sample_parse current_A)
   \<and> directRecommendations sample_parse current_A = [direct_B]
   \<and> score direct_B = 1 \<and> rec_type direct_B = Related
   \<and> reason direct_B = ''feeds-into: A is an input of B''
   \<and> prefix (directRecommendations sample_parse current_A)
        [direct_B, agency_sample dataset_B, agency_sample dataset_C]"
proof -
  have h: "relatedTo current_A = [] \<and> (\<exists>r. relatedFrom current_A = [r] \<and> relationType r = ''feeds-into'')"
    by (simp add: sample_fields)
  have m: "direct_B \<in> set (directRecommendations sample_parse current_A)"
    by (simp add: sample_direct)
  note spec = direct_relations_one_each [of sample_parse current_A sample_store "''A''"
      "[direct_B, agency_sample dataset_B, agency_sample dataset_C]"]
  have 1: "score direct_B = 1 \<and> rec_type direct_B = Related" using spec m by blast
  have 2: "prefix (directRecommendations sample_parse current_A)
        [direct_B, agency_sample dataset_B, agency_sample dataset_C]"
    using spec sample_candidates(1) by blast
  have 3: "\<exists>rec. directRecommendations sample_parse current_A = [rec] \<and> score rec = 1
               \<and> prefix ''feeds-into:'' (reason rec)"
    using spec h by blast
  have 4: "reason direct_B = ''feeds-into: A is an input of B''"
    by (simp add: direct_B_def directRecommendation_def or_else_def)
  show ?thesis using h m 1 2 3 4 sample_candidates(1) by (simp add: sample_fields sample_direct)
qed

text \<open>
  The functions that merge. The last statement of getRelatedRecommendations and of
  getSearchRecommendations turns any list of candidates into a list in which no dataset id
  occurs twice, scores do not increase, every kept recommendation is the first candidate
  with its dataset id, and, for a limit that is not negative, the length is at most the
  limit; what either function returns is this list for its candidates (or nothing for an
  unknown id). getComplementaryDatasets returns such a list of at most 5.
\<close>

theorem merged_unique_sorted_limited:
  "distinct (map rec_id (uniqueRecommendations recs limit))
   \<and> descending (uniqueRecommendations recs limit)
   \<and> (\<forall>r \<in> set (uniqueRecommendations recs limit). first_with_id recs r = Some r)
   \<and> (0 \<le> limit \<longrightarrow> int (length (uniqueRecommendations recs limit)) \<le> limit)
   \<and> (getRelatedRecommendations st P datasetId limit = Inr out1 \<longrightarrow>
         (findUnique st datasetId = Inr None \<and> out1 = [])
         \<or> (\<exists>cur cands. findUnique st datasetId = Inr (Some cur)
               \<and> relatedCandidates st P datasetId cur = Inr cands
               \<and> out1 = uniqueRecommendations cands limit))
   \<and> (getSearchRecommendations st P ctx limit = Inr out2 \<longrightarrow>
         (\<exists>cands. searchCandidates st P ctx = Inr cands \<and> out2 = uniqueRecommendations cands limit))
   \<and> (getComplementaryDatasets st P ids = Inr out3 \<longrightarrow>
         distinct (map rec_id out3) \<and> descending out3 \<and> length out3 \<le> 5
         \<and> (\<exists>cands. complementaryCandidates st P ids = Inr cands
               \<and> (\<forall>r \<in> set out3. first_with_id cands r = Some r)))"
proof -
  have search: "\<exists>cands. searchCandidates st P ctx = Inr cands \<and> out2 = uniqueRecommendations cands limit"
    if "getSearchRecommendations st P ctx limit = Inr out2"
    using that by (auto simp: getSearchRecommendations_def bind_err_Inr)
  have compl: "distinct (map rec_id out3) \<and> descending out3 \<and> length out3 \<le> 5
         \<and> (\<exists>cands. complementaryCandidates st P ids = Inr cands
               \<and> (\<forall>r \<in> set out3. first_with_id cands r = Some r))"
    if "getComplementaryDatasets st P ids = Inr out3"
  proof -
    from that obtain cands where c: "complementaryCandidates st P ids = Inr cands"
      and o: "out3 = slice0 (sort_by_score (filter_indexed (\<lambda>rec index.
              int index = findIndex (\<lambda>r. rec_id r = rec_id rec) cands
              \<and> \<not> arr_includes ids (rec_id rec)) cands)) 5"
      by (auto simp: getComplementaryDatasets_def bind_err_Inr)
    note pp = pipeline_props [OF o]
    from pp(4) have "length out3 \<le> 5" by simp
    with pp(1,2,3) c show ?thesis by auto
  qed
  show ?thesis
    using uniqueRecommendations_props [where recs = recs and limit = limit]
      getRelatedRecommendations_Inr [of st P datasetId limit out1] search compl
    by blast
qed

theorem merged_unique_sorted_limited_witness:
  "(0::int) \<le> 5
   \<and> getRelatedRecommendations sample_store sample_parse ''A'' 5 = Inr [direct_B, agency_sample dataset_C]
   \<and> relatedCandidates sample_store sample_parse ''A'' current_A
        = Inr [direct_B, agency_sample dataset_B, agency_sample dataset_C]
   \<and> getSearchRecommendations sample_store sample_parse
        \<lparr>searchQuery = None, ctx_domains = None, ctx_keywords = None\<rparr> 5 = Inr []
   \<and> getComplementaryDatasets sample_store sample_parse [''A'', ''B''] = Inr [agency_sample dataset_C]
   \<and> distinct (map rec_id [direct_B, agency_sample dataset_C])
   \<and> descending [direct_B, agency_sample dataset_C]
   \<and> first_with_id [direct_B, agency_sample dataset_B, agency_sample dataset_C] direct_B = Some direct_B
   \<and> int (length [direct_B, agency_sample dataset_C]) \<le> 5
   \<and> length [agency_sample dataset_C] \<le> 5"
proof -
  let ?cands = "[direct_B, agency_sample dataset_B, agency_sample dataset_C]"
  let ?out = "[direct_B, agency_sample dataset_C]"
  let ?ctx = "\<lparr>searchQuery = None, ctx_domains = None, ctx_keywords = None\<rparr>"
  have l: "(0::int) \<le> 5" by simp
  have u: "uniqueRecommendations ?cands 5 = ?out" by (rule sample_unique(1))
  have m: "direct_B \<in> set (uniqueRecommendations ?cands 5)" by (simp add: u)
  note spec = merged_unique_sorted_limited [of ?cands 5 sample_store sample_parse "''A''" ?out
      ?ctx "[]" "[''A'', ''B'']" "[agency_sample dataset_C]"]
  have 1: "distinct (map rec_id ?out)" using spec by (simp only: u) 
  have 2: "descending ?out" using spec by (simp only: u)
  have 3: "first_with_id ?cands direct_B = Some direct_B" using spec m by blast
  have 4: "int (length ?out) \<le> 5" using spec l by (simp only: u) 
  have 5: "length [agency_sample dataset_C] \<le> 5" using spec sample_complementary(2) by blast
  show ?thesis
    using l sample_related(1) sample_candidates(1) sample_search sample_complementary(2) 1 2 3 4 5
    by blast
qed

lemma getTrendingDatasets_rows:
  "getTrendingDatasets st P limit = Inr out \<longleftrightarrow>
     (\<exists>rows. findManyRecent st limit = Inr rows \<and> out = map (trendingRecommendation P) rows)"
  by (auto simp: getTrendingDatasets_def bind_err_Inr)

text \<open>
  C3. For the merging functions the claim holds (above). getTrendingDatasets does not
  merge: it turns the rows of the store, most recently updated first, into recommendations
  in that order, although its comments speak of the datasets with most relationships. For
  a store whose most recently updated dataset has no relation and whose next one has one,
  the scores come out as 0, 10, which is not sorted by non-increasing score.
\<close>

theorem getTrendingDatasets_unsorted:
  "findManyRecent sample_store 2 = Inr [with_counts dataset_C 0 0, with_counts dataset_A 1 0]
   \<and> getTrendingDatasets sample_store sample_parse 2 = Inr [trending_C, trending_A]
   \<and> score trending_C = 0 \<and> score trending_A = 10
   \<and> \<not> descending [trending_C, trending_A]"
  by (simp add: sample_queries sample_trending sample_scores descending_def)

lemma collect_err_concat:
  "collect_err f xs = Inr ys \<longleftrightarrow> (\<exists>yss. map f xs = map Inr yss \<and> ys = concat yss)"
proof (induction xs arbitrary: ys)
  case Nil
  then show ?case by auto
next
  case (Cons x xs)
  show ?case
  proof
    assume "collect_err f (x # xs) = Inr ys"
    then obtain zs ws where 1: "f x = Inr zs" and 2: "collect_err f xs = Inr ws" and 3: "ys = zs @ ws"
      by (auto simp: bind_err_Inr)
    from 2 Cons.IH obtain wss where "map f xs = map Inr wss" and "ws = concat wss" by blast
    with 1 3 have "map f (x # xs) = map Inr (zs # wss) \<and> ys = concat (zs # wss)" by simp
    then show "\<exists>yss. map f (x # xs) = map Inr yss \<and> ys = concat yss" by blast
  next
    assume "\<exists>yss. map f (x # xs) = map Inr yss \<and> ys = concat yss"
    then obtain yss where m: "map f (x # xs) = map Inr yss" and y: "ys = concat yss" by blast
    then obtain zs wss where yss: "yss = zs # wss" by (cases yss) auto
    with m have 1: "f x = Inr zs" and 2: "map f xs = map Inr wss" by simp_all
    from 2 Cons.IH have "collect_err f xs = Inr (concat wss)" by blast
    with 1 y yss show "collect_err f (x # xs) = Inr ys" by (simp add: bind_err_def)
  qed
qed

lemma keep_first_ids:
  "key ` set (keep_first key (\<lambda>x. key x \<notin> S) seen xs) = key ` set xs - S - seen"
proof (induction xs arbitrary: seen)
  case Nil
  show ?case by simp
next
  case (Cons a xs)
  show ?case
  proof (cases "key a \<in> seen")
    case True
    have "key ` set (keep_first key (\<lambda>x. key x \<notin> S) seen (a # xs))
            = key ` set (keep_first key (\<lambda>x. key x \<notin> S) seen xs)"
      using True by simp
    also have "\<dots> = key ` set xs - S - seen" by (rule Cons.IH)
    also have "\<dots> = key ` set (a # xs) - S - seen" using True by auto
    finally show ?thesis .
  next
    case False
    have "key ` set (keep_first key (\<lambda>x. key x \<notin> S) seen (a # xs))
            = (if key a \<notin> S then {key a} else {})
              \<union> key ` set (keep_first key (\<lambda>x. key x \<notin> S) (insert (key a) seen) xs)"
      using False by (simp add: image_Un)
    also have "\<dots> = (if key a \<notin> S then {key a} else {})
                       \<union> (key ` set xs - S - insert (key a) seen)"
      by (simp only: Cons.IH)
    also have "\<dots> = key ` set (a # xs) - S - seen" using False by auto
    finally show ?thesis .
  qed
qed

lemma keep_first_complete:
  "find (\<lambda>y. key y = key x) xs = Some x \<Longrightarrow> q x \<Longrightarrow> key x \<notin> seen
     \<Longrightarrow> x \<in> set (keep_first key q seen xs)"
  by (induction xs arbitrary: seen) (auto split: if_splits)

lemma pipeline_complete:
  fixes recs :: "'a recommendation list"
  assumes out_def: "out = slice0 (sort_by_score (filter_indexed (\<lambda>rec index.
              int index = findIndex (\<lambda>r. rec_id r = rec_id rec) recs
              \<and> rec_id rec \<notin> S) recs)) 5"
  shows "rec_id ` set out \<subseteq> rec_id ` set recs - S"
    and "length out = min 5 (card (rec_id ` set recs - S))"
    and "\<forall>c. first_with_id recs c = Some c \<and> rec_id c \<notin> S \<and> c \<notin> set out
           \<longrightarrow> (\<forall>r \<in> set out. score c \<le> score r)"
proof -
  let ?kept = "keep_first rec_id (\<lambda>r. rec_id r \<notin> S) {} recs"
  let ?sorted = "sort_by_score ?kept"
  have out: "out = take 5 ?sorted"
    unfolding out_def by (simp add: filter_indexed_keep_first slice0_def)
  have ids: "rec_id ` set ?kept = rec_id ` set recs - S"
    using keep_first_ids [of rec_id S "{}" recs] by simp
  have set_sorted: "set ?sorted = set ?kept" by (simp add: sort_by_score_def)
  have "set out \<subseteq> set ?kept" unfolding out using set_take_subset [of 5 ?sorted] set_sorted by simp
  then show "rec_id ` set out \<subseteq> rec_id ` set recs - S" using ids by blast
  have "distinct (map rec_id ?kept)" by (rule keep_first_distinct)
  then have "card (rec_id ` set ?kept) = length ?kept"
    using distinct_card [of "map rec_id ?kept"] by simp
  then have "length ?sorted = card (rec_id ` set recs - S)"
    by (simp add: sort_by_score_def ids)
  then show "length out = min 5 (card (rec_id ` set recs - S))"
    unfolding out by (simp add: min.commute)
  show "\<forall>c. first_with_id recs c = Some c \<and> rec_id c \<notin> S \<and> c \<notin> set out
           \<longrightarrow> (\<forall>r \<in> set out. score c \<le> score r)"
  proof (intro allI impI ballI)
    fix c r
    assume c: "first_with_id recs c = Some c \<and> rec_id c \<notin> S \<and> c \<notin> set out" and r: "r \<in> set out"
    then have "c \<in> set ?kept"
      using keep_first_complete [of rec_id c recs "\<lambda>r. rec_id r \<notin> S" "{}"]
      by (simp add: first_with_id_def)
    moreover have "set ?sorted = set (take 5 ?sorted) \<union> set (drop 5 ?sorted)"
      by (metis append_take_drop_id set_append)
    ultimately have "c \<in> set (take 5 ?sorted) \<union> set (drop 5 ?sorted)"
      using set_sorted by blast
    moreover have "c \<notin> set (take 5 ?sorted)" using c unfolding out by blast
    ultimately have cd: "c \<in> set (drop 5 ?sorted)" by blast
    have "descending (take 5 ?sorted @ drop 5 ?sorted)"
      using descending_sort_by_score [of ?kept] by simp
    then have "\<forall>a \<in> set (take 5 ?sorted). \<forall>b \<in> set (drop 5 ?sorted). score b \<le> score a"
      unfolding descending_def sorted_wrt_append by blast
    with cd r show "score c \<le> score r" unfolding out by blast
  qed
qed

text \<open>
  C9 (as the code has it). When getComplementaryDatasets returns, every seed id has its
  related recommendations (direct relations, same domain and same agency merged, at most
  2), and the output is their union without the recommendations for seed ids: its dataset
  ids are ids of the union that are no seed ids, all of them when they are at most 5, and
  the 5 with the best scores otherwise; each dataset id occurs once, with the first
  recommendation the union has for it; scores do not increase. It returns whenever the
  related recommendations of every seed id do.
\<close>

theorem complementary_union_of_related:
  "(getComplementaryDatasets st P ids = Inr out \<longrightarrow>
      (\<exists>results.
          map (\<lambda>datasetId. getRelatedRecommendations st P datasetId 2) ids = map Inr results
          \<and> (\<forall>related \<in> set results. length related \<le> 2)
          \<and> (\<forall>r \<in> set out. rec_id r \<notin> set ids)
          \<and> rec_id ` set out \<subseteq> rec_id ` set (concat results) - set ids
          \<and> (card (rec_id ` set (concat results) - set ids) \<le> 5 \<longrightarrow>
               rec_id ` set out = rec_id ` set (concat results) - set ids)
          \<and> length out = min 5 (card (rec_id ` set (concat results) - set ids))
          \<and> distinct (map rec_id out)
          \<and> descending out
          \<and> (\<forall>r \<in> set out. first_with_id (concat results) r = Some r)
          \<and> (\<forall>c. first_with_id (concat results) c = Some c \<and> rec_id c \<notin> set ids \<and> c \<notin> set out
                \<longrightarrow> (\<forall>r \<in> set out. score c \<le> score r))))
   \<and> ((\<forall>datasetId \<in> set ids. \<exists>related. getRelatedRecommendations st P datasetId 2 = Inr related)
        \<longrightarrow> (\<exists>out'. getComplementaryDatasets st P ids = Inr out'))"
proof (intro conjI impI)
  assume h: "getComplementaryDatasets st P ids = Inr out"
  then obtain cands where c: "complementaryCandidates st P ids = Inr cands"
    and o: "out = slice0 (sort_by_score (filter_indexed (\<lambda>rec index.
            int index = findIndex (\<lambda>r. rec_id r = rec_id rec) cands
            \<and> \<not> arr_includes ids (rec_id rec)) cands)) 5"
    by (auto simp: getComplementaryDatasets_def bind_err_Inr)
  from c obtain results
    where m: "map (\<lambda>datasetId. getRelatedRecommendations st P datasetId 2) ids = map Inr results"
      and cc: "cands = concat results"
    unfolding complementaryCandidates_def collect_err_concat by blast
  have two: "\<forall>related \<in> set results. length related \<le> 2"
  proof
    fix related assume "related \<in> set results"
    then have "Inr related \<in> set (map (\<lambda>datasetId. getRelatedRecommendations st P datasetId 2) ids)"
      unfolding m by simp
    then obtain datasetId where "getRelatedRecommendations st P datasetId 2 = Inr related" by auto
    from getRelatedRecommendations_props(3) [OF this] show "length related \<le> 2" by simp
  qed
  note pp = pipeline_props [OF o]
  have o': "out = slice0 (sort_by_score (filter_indexed (\<lambda>rec index.
            int index = findIndex (\<lambda>r. rec_id r = rec_id rec) cands
            \<and> rec_id rec \<notin> set ids) cands)) 5"
    using o by (simp add: arr_includes_def)
  note pc = pipeline_complete [OF o']
  have seeds: "\<forall>r \<in> set out. rec_id r \<notin> set ids" using pp(3) by (simp add: arr_includes_def)
  have first: "\<forall>r \<in> set out. first_with_id cands r = Some r" using pp(3) by blast
  have all: "rec_id ` set out = rec_id ` set cands - set ids"
    if le: "card (rec_id ` set cands - set ids) \<le> 5"
  proof -
    have "card (rec_id ` set out) = length out"
      using distinct_card [of "map rec_id out"] pp(1) by simp
    with pc(2) le have "card (rec_id ` set out) = card (rec_id ` set cands - set ids)" by simp
    moreover have "finite (rec_id ` set cands - set ids)" by simp
    ultimately show ?thesis using pc(1) by (simp add: card_subset_eq)
  qed
  show "\<exists>results.
          map (\<lambda>datasetId. getRelatedRecommendations st P datasetId 2) ids = map Inr results
          \<and> (\<forall>related \<in> set results. length related \<le> 2)
          \<and> (\<forall>r \<in> set out. rec_id r \<notin> set ids)
          \<and> rec_id ` set out \<subseteq> rec_id ` set (concat results) - set ids
          \<and> (card (rec_id ` set (concat results) - set ids) \<le> 5 \<longrightarrow>
               rec_id ` set out = rec_id ` set (concat results) - set ids)
          \<and> length out = min 5 (card (rec_id ` set (concat results) - set ids))
          \<and> distinct (map rec_id out)
          \<and> descending out
          \<and> (\<forall>r \<in> set out. first_with_id (concat results) r = Some r)
          \<and> (\<forall>c. first_with_id (concat results) c = Some c \<and> rec_id c \<notin> set ids \<and> c \<notin> set out
                \<longrightarrow> (\<forall>r \<in> set out. score c \<le> score r))"
    using m two seeds pc(1) all pc(2) pp(1) pp(2) first pc(3) unfolding cc
    by (intro exI [of _ results] conjI impI) 
next
  assume "\<forall>datasetId \<in> set ids. \<exists>related. getRelatedRecommendations st P datasetId 2 = Inr related"
  then have "\<exists>yss. map (\<lambda>datasetId. getRelatedRecommendations st P datasetId 2) ids = map Inr yss"
  proof (induction ids)
    case Nil
    then show ?case by simp
  next
    case (Cons i ids)
    then obtain related yss where "getRelatedRecommendations st P i 2 = Inr related"
      and "map (\<lambda>datasetId. getRelatedRecommendations st P datasetId 2) ids = map Inr yss"
      by auto
    then have "map (\<lambda>datasetId. getRelatedRecommendations st P datasetId 2) (i # ids)
                 = map Inr (related # yss)" by simp
    then show ?case by blast
  qed
  then obtain cands where "complementaryCandidates st P ids = Inr cands"
    unfolding complementaryCandidates_def using collect_err_concat by blast
  then show "\<exists>out'. getComplementaryDatasets st P ids = Inr out'"
    by (simp add: getComplementaryDatasets_def bind_err_def)
qed

theorem complementary_union_of_related_witness:
  "getComplementaryDatasets sample_store sample_parse [''A'', ''B''] = Inr [agency_sample dataset_C]
   \<and> map (\<lambda>datasetId. getRelatedRecommendations sample_store sample_parse datasetId 2) [''A'', ''B'']
       = map Inr [ [direct_B, agency_sample dataset_C], [direct_A, agency_sample dataset_C] ]
   \<and> rec_id ` set (concat [ [direct_B, agency_sample dataset_C], [direct_A, agency_sample dataset_C] ])
        - set [''A'', ''B''] = {''C''}
   \<and> card {''C''} \<le> 5
   \<and> rec_id ` set [agency_sample dataset_C] = {''C''}
   \<and> length [agency_sample dataset_C] = min 5 (card {''C''})
   \<and> length [direct_B, agency_sample dataset_C] \<le> 2
   \<and> first_with_id (concat [ [direct_B, agency_sample dataset_C], [direct_A, agency_sample dataset_C] ])
        (agency_sample dataset_C) = Some (agency_sample dataset_C)
   \<and> (\<exists>out'. getComplementaryDatasets sample_store sample_parse [''A'', ''B''] = Inr out')"
proof -
  let ?results = "[ [direct_B, agency_sample dataset_C], [direct_A, agency_sample dataset_C] ]"
  have h: "getComplementaryDatasets sample_store sample_parse [''A'', ''B''] = Inr [agency_sample dataset_C]"
    by (rule sample_complementary(2))
  have m: "map (\<lambda>datasetId. getRelatedRecommendations sample_store sample_parse datasetId 2) [''A'', ''B'']
             = map Inr ?results"
    by (simp add: sample_related)
  have each: "\<forall>datasetId \<in> set [''A'', ''B''].
                \<exists>related. getRelatedRecommendations sample_store sample_parse datasetId 2 = Inr related"
    by (simp add: sample_related)
  have ids: "rec_id ` set (concat ?results) - set [''A'', ''B''] = {''C''}"
    by (simp add: sample_ids insert_Diff_if)
  have c: "card {''C''} \<le> 5" by simp
  note spec = complementary_union_of_related
    [of sample_store sample_parse "[''A'', ''B'']" "[agency_sample dataset_C]"]
  from spec have "\<exists>results.
          map (\<lambda>datasetId. getRelatedRecommendations sample_store sample_parse datasetId 2) [''A'', ''B'']
            = map Inr results
          \<and> (\<forall>related \<in> set results. length related \<le> 2)
          \<and> (\<forall>r \<in> set [agency_sample dataset_C]. rec_id r \<notin> set [''A'', ''B''])
          \<and> rec_id ` set [agency_sample dataset_C] \<subseteq> rec_id ` set (concat results) - set [''A'', ''B'']
          \<and> (card (rec_id ` set (concat results) - set [''A'', ''B'']) \<le> 5 \<longrightarrow>
               rec_id ` set [agency_sample dataset_C] = rec_id ` set (concat results) - set [''A'', ''B''])
          \<and> length [agency_sample dataset_C]
               = min 5 (card (rec_id ` set (concat results) - set [''A'', ''B'']))
          \<and> distinct (map rec_id [agency_sample dataset_C])
          \<and> descending [agency_sample dataset_C]
          \<and> (\<forall>r \<in> set [agency_sample dataset_C]. first_with_id (concat results) r = Some r)
          \<and> (\<forall>c. first_with_id (concat results) c = Some c \<and> rec_id c \<notin> set [''A'', ''B'']
                  \<and> c \<notin> set [agency_sample dataset_C]
                \<longrightarrow> (\<forall>r \<in> set [agency_sample dataset_C]. score c \<le> score r))"
    by (rule conjunct1 [THEN mp, OF _ h])
  then obtain results
    where r: "map (\<lambda>datasetId. getRelatedRecommendations sample_store sample_parse datasetId 2) [''A'', ''B'']
                = map Inr results"
      and two: "\<forall>related \<in> set results. length related \<le> 2"
      and all: "card (rec_id ` set (concat results) - set [''A'', ''B'']) \<le> 5 \<longrightarrow>
                  rec_id ` set [agency_sample dataset_C] = rec_id ` set (concat results) - set [''A'', ''B'']"
      and len: "length [agency_sample dataset_C]
                  = min 5 (card (rec_id ` set (concat results) - set [''A'', ''B'']))"
      and first: "\<forall>r \<in> set [agency_sample dataset_C]. first_with_id (concat results) r = Some r"
    by (elim exE conjE)
  have "map (Inr :: _ \<Rightarrow> error + _) results = map Inr ?results"
    unfolding r [symmetric] by (rule m)
  then have res: "results = ?results" by (simp only: inj_map_eq_map [OF inj_Inr])
  have 1: "rec_id ` set [agency_sample dataset_C] = {''C''}"
    using all [unfolded res ids] c by (rule mp)
  have 2: "length [agency_sample dataset_C] = min 5 (card {''C''})"
    using len unfolding res ids .
  from two have "length [direct_B, agency_sample dataset_C] \<le> 2"
    unfolding res by (rule bspec) (simp only: list.set insertI1)
  then have 3: "length [direct_B, agency_sample dataset_C] \<le> 2" .
  from first have 4: "first_with_id (concat ?results) (agency_sample dataset_C) = Some (agency_sample dataset_C)"
    unfolding res by (rule bspec) (simp only: list.set insertI1)
  have 5: "\<exists>out'. getComplementaryDatasets sample_store sample_parse [''A'', ''B''] = Inr out'"
    using each by (rule spec [THEN conjunct2, THEN mp])
  show ?thesis using h m ids c 1 2 3 4 5 by (intro conjI)
qed

text \<open>
  C9 as stated fails: for the seeds A and B, related to each other, the only relations are
  between the seeds, so the direct-relation recommendations are for B and A; the output
  is the same-agency recommendation for C.
\<close>

theorem complementary_not_direct_only_counterexample:
  "findUnique sample_store ''A'' = Inr (Some current_A)
   \<and> findUnique sample_store ''B'' = Inr (Some current_B)
   \<and> directRecommendations sample_parse current_A = [direct_B]
   \<and> directRecommendations sample_parse current_B = [direct_A]
   \<and> getComplementaryDatasets sample_store sample_parse [''A'', ''B''] = Inr [agency_sample dataset_C]
   \<and> rec_type (agency_sample dataset_C) = Agency
   \<and> rec_id (agency_sample dataset_C) = ''C''
   \<and> rec_id direct_A = ''A'' \<and> rec_id direct_B = ''B''
   \<and> agency_sample dataset_C \<notin> set [direct_B, direct_A]"
proof -
  have "agency_sample dataset_C \<noteq> direct_A" "agency_sample dataset_C \<noteq> direct_B"
    using sample_ids by auto
  moreover have "rec_type (agency_sample dataset_C) = Agency"
    by (simp add: agency_sample_def)
  ultimately show ?thesis
    by (simp add: sample_queries sample_direct sample_complementary sample_ids)
qed

lemma count_inter: "distinct xs \<Longrightarrow> length (filter (\<lambda>x. x \<in> A) xs) = card (set xs \<inter> A)"
  by (simp add: distinct_length_filter Int_commute)

lemma count_such: "distinct xs \<Longrightarrow> length (filter Q xs) = card {x \<in> set xs. Q x}"
  by (simp add: distinct_length_filter Int_def conj_commute)

lemma calculateSimilarity_value:
  assumes "P (or_empty_array (ds_domains d1)) = Some domains1"
    and "P (or_empty_array (ds_domains d2)) = Some domains2"
    and "P (or_empty_array (ds_keywords d1)) = Some keywords1"
    and "P (or_empty_array (ds_keywords d2)) = Some keywords2"
  shows "calculateSimilarity P d1 d2 =
     Inr (let similarity3 =
                fadd (fadd (fadd 0
                  (fmul (real (length (filter (\<lambda>d. d \<in> set domains2) domains1))) (lit 0.3)))
                  (fmul (real (length (filter (\<lambda>k.
                     \<exists>k2 \<in> set keywords2. str_includes k2 k \<or> str_includes k k2) keywords1))) (lit 0.2)))
                  (fmul (real (length (filter (\<lambda>t. t \<in> tag_name ` set (ds_tags d2))
                     (map tag_name (ds_tags d1))))) (lit 0.25));
              similarity4 = (if ds_agencyId d1 = ds_agencyId d2
                             then fadd similarity3 (lit 0.1) else similarity3)
          in if ds_accessibility d1 = ''api'' \<and> ds_accessibility d2 = ''api''
             then fadd similarity4 (lit 0.15) else similarity4)"
  using assms
  by (simp add: calculateSimilarity_def parse_or_throw_def bind_err_def Let_def arr_includes_def
      list_ex_iff)

lemma similarity_approximates:
  fixes a b c :: nat
  shows "approximates 7
     (let similarity3 = fadd (fadd (fadd 0 (fmul (real a) (lit 0.3))) (fmul (real b) (lit 0.2)))
                          (fmul (real c) (lit 0.25));
          similarity4 = (if agency then fadd similarity3 (lit 0.1) else similarity3)
      in if api then fadd similarity4 (lit 0.15) else similarity4)
     (0.3 * real a + 0.2 * real b + 0.25 * real c
      + (if agency then 0.1 else 0) + (if api then 0.15 else 0))"
proof -
  let ?s1 = "fadd 0 (fmul (real a) (lit 0.3))"
  let ?s2 = "fadd ?s1 (fmul (real b) (lit 0.2))"
  let ?s3 = "fadd ?s2 (fmul (real c) (lit 0.25))"
  let ?s4 = "if agency then fadd ?s3 (lit 0.1) else ?s3"
  let ?s5 = "if api then fadd ?s4 (lit 0.15) else ?s4"
  have z: "approximates 2 0 0" by (simp add: approximates_def)
  have "approximates (Suc 2) ?s1 (0 + 0.3 * real a)"
    by (intro approximates_fadd z approximates_count) simp
  then have 1: "approximates 3 ?s1 (0.3 * real a)" by (simp add: numeral_3_eq_3)
  have "approximates 3 (fmul (real b) (lit 0.2)) (0.2 * real b)"
    by (rule approximates_mono [OF approximates_count]) simp_all
  with 1 have "approximates (Suc 3) ?s2 (0.3 * real a + 0.2 * real b)"
    by (rule approximates_fadd)
  then have 2: "approximates 4 ?s2 (0.3 * real a + 0.2 * real b)" by simp
  have "approximates 4 (fmul (real c) (lit 0.25)) (0.25 * real c)"
    by (rule approximates_mono [OF approximates_count]) simp_all
  with 2 have "approximates (Suc 4) ?s3 (0.3 * real a + 0.2 * real b + 0.25 * real c)"
    by (rule approximates_fadd)
  then have 3: "approximates 5 ?s3 (0.3 * real a + 0.2 * real b + 0.25 * real c)" by simp
  have 4: "approximates 6 ?s4 (0.3 * real a + 0.2 * real b + 0.25 * real c
                                + (if agency then 0.1 else 0))"
  proof (cases agency)
    case True
    have "approximates 5 (lit 0.1) 0.1"
      by (rule approximates_mono [OF approximates_lit]) simp_all
    with 3 have "approximates (Suc 5) (fadd ?s3 (lit 0.1))
                   (0.3 * real a + 0.2 * real b + 0.25 * real c + 0.1)"
      by (rule approximates_fadd)
    with True show ?thesis by simp
  next
    case False
    from 3 have "approximates 6 ?s3 (0.3 * real a + 0.2 * real b + 0.25 * real c)"
      by (rule approximates_mono) simp
    with False show ?thesis by simp
  qed
  have 5: "approximates 7 ?s5 (0.3 * real a + 0.2 * real b + 0.25 * real c
                                + (if agency then 0.1 else 0) + (if api then 0.15 else 0))"
  proof (cases api)
    case True
    have "approximates 6 (lit 0.15) 0.15"
      by (rule approximates_mono [OF approximates_lit]) simp_all
    with 4 have "approximates (Suc 6) (fadd ?s4 (lit 0.15))
                   (0.3 * real a + 0.2 * real b + 0.25 * real c
                    + (if agency then 0.1 else 0) + 0.15)"
      by (rule approximates_fadd)
    with True show ?thesis by simp
  next
    case False
    from 4 have "approximates 7 ?s4 (0.3 * real a + 0.2 * real b + 0.25 * real c
                                      + (if agency then 0.1 else 0))"
      by (rule approximates_mono) simp
    with False show ?thesis by simp
  qed
  then show ?thesis by (simp only: Let_def)
qed

lemma spec_similarity_counts:
  assumes "distinct domains1" and "distinct keywords1" and "distinct (map tag_name (ds_tags d1))"
  shows "spec_similarity domains1 domains2 keywords1 keywords2 d1 d2 =
     0.3 * real (length (filter (\<lambda>d. d \<in> set domains2) domains1))
     + 0.2 * real (length (filter (\<lambda>k.
                \<exists>k2 \<in> set keywords2. str_includes k2 k \<or> str_includes k k2) keywords1))
     + 0.25 * real (length (filter (\<lambda>t. t \<in> tag_name ` set (ds_tags d2))
                (map tag_name (ds_tags d1))))
     + (if ds_agencyId d1 = ds_agencyId d2 then 0.1 else 0)
     + (if ds_accessibility d1 = ''api'' \<and> ds_accessibility d2 = ''api'' then 0.15 else 0)"
  using count_inter [OF assms(1), of "set domains2"]
    count_such [OF assms(2), of "\<lambda>k. \<exists>k2 \<in> set keywords2. str_includes k2 k \<or> str_includes k k2"]
    count_inter [OF assms(3), of "tag_name ` set (ds_tags d2)"]
  by (simp add: spec_similarity_def)

lemma similarity_fields:
  "sample_parse (or_empty_array (ds_domains dataset_D)) = Some [''health'', ''ageing'']"
  "sample_parse (or_empty_array (ds_domains dataset_E)) = Some [''health'']"
  "sample_parse (or_empty_array (ds_keywords dataset_D)) = Some [''labour'', ''labour market'']"
  "sample_parse (or_empty_array (ds_keywords dataset_E)) = Some [''labour force'']"
  "sample_parse (or_empty_array (ds_domains dataset_P)) = Some []"
  "sample_parse (or_empty_array (ds_domains dataset_Q)) = Some []"
  "sample_parse (or_empty_array (ds_keywords dataset_P)) = Some [''labour'']"
  "sample_parse (or_empty_array (ds_keywords dataset_Q)) = Some [''labour force'']"
  by (simp_all add: dataset_D_def dataset_E_def dataset_P_def dataset_Q_def sample_dataset_def
      or_empty_array_stringify sample_parse_values)
     (simp_all add: or_empty_array_def sample_parse_values)

lemma similarity_samples:
  "calculateSimilarity sample_parse dataset_D dataset_E = Inr (7656119366529843 / 9007199254740992)"
  "calculateSimilarity sample_parse dataset_P dataset_Q = Inr (1351079888211149 / 4503599627370496)"
proof -
  show "calculateSimilarity sample_parse dataset_D dataset_E = Inr (7656119366529843 / 9007199254740992)"
    unfolding calculateSimilarity_value [OF similarity_fields(1-4)]
    by (simp add: dataset_D_def dataset_E_def sample_dataset_def Let_def) (simp add: double_eval)
  show "calculateSimilarity sample_parse dataset_P dataset_Q = Inr (1351079888211149 / 4503599627370496)"
    unfolding calculateSimilarity_value [OF similarity_fields(5-8)]
    by (simp add: dataset_P_def dataset_Q_def sample_dataset_def Let_def) (simp add: double_eval)
qed

lemma spec_similarity_samples:
  "spec_similarity [''health'', ''ageing''] [''health''] [''labour'', ''labour market'']
     [''labour force''] dataset_D dataset_E = 17 / 20"
  "spec_similarity [] [] [''labour''] [''labour force''] dataset_P dataset_Q = 3 / 10"
proof -
  have t: "distinct (map tag_name (ds_tags dataset_D))" "distinct (map tag_name (ds_tags dataset_P))"
    by (simp_all add: dataset_D_def dataset_P_def sample_dataset_def)
  show "spec_similarity [''health'', ''ageing''] [''health''] [''labour'', ''labour market'']
     [''labour force''] dataset_D dataset_E = 17 / 20"
    by (subst spec_similarity_counts)
       (simp_all add: dataset_D_def dataset_E_def sample_dataset_def)
  show "spec_similarity [] [] [''labour''] [''labour force''] dataset_P dataset_Q = 3 / 10"
    by (subst spec_similarity_counts)
       (simp_all add: dataset_P_def dataset_Q_def sample_dataset_def)
qed

text \<open>
  C6 (as the code has it). For two datasets whose stored domains and keywords parse, the
  similarity is the sum, in double precision and in this order, of 0.3 for every domain of
  the first that is a domain of the second, 0.2 for every keyword of the first that some
  keyword of the second contains or is contained in, 0.25 for every tag of the first that
  is a tag of the second, 0.1 for the same agency and 0.15 when both are accessible by
  API. It differs from the exact sum by at most that sum divided by \<open>2\<^sup>5\<^sup>0\<close>. For lists
  without duplicates the three counts are the sizes of the intersections and of the set of
  matching keywords, and the exact sum is the similarity as the specification words it.
\<close>

theorem calculateSimilarity_double_sum:
  assumes "P (or_empty_array (ds_domains d1)) = Some domains1"
    and "P (or_empty_array (ds_domains d2)) = Some domains2"
    and "P (or_empty_array (ds_keywords d1)) = Some keywords1"
    and "P (or_empty_array (ds_keywords d2)) = Some keywords2"
  shows "\<exists>s. calculateSimilarity P d1 d2 = Inr s
     \<and> s = (let similarity3 =
                  fadd (fadd (fadd 0
                    (fmul (real (length (filter (\<lambda>d. d \<in> set domains2) domains1))) (lit 0.3)))
                    (fmul (real (length (filter (\<lambda>k.
                       \<exists>k2 \<in> set keywords2. str_includes k2 k \<or> str_includes k k2) keywords1)))
                       (lit 0.2)))
                    (fmul (real (length (filter (\<lambda>t. t \<in> tag_name ` set (ds_tags d2))
                       (map tag_name (ds_tags d1))))) (lit 0.25));
                similarity4 = (if ds_agencyId d1 = ds_agencyId d2
                               then fadd similarity3 (lit 0.1) else similarity3)
            in if ds_accessibility d1 = ''api'' \<and> ds_accessibility d2 = ''api''
               then fadd similarity4 (lit 0.15) else similarity4)
     \<and> \<bar>s - (0.3 * real (length (filter (\<lambda>d. d \<in> set domains2) domains1))
             + 0.2 * real (length (filter (\<lambda>k.
                     \<exists>k2 \<in> set keywords2. str_includes k2 k \<or> str_includes k k2) keywords1))
             + 0.25 * real (length (filter (\<lambda>t. t \<in> tag_name ` set (ds_tags d2))
                     (map tag_name (ds_tags d1))))
             + (if ds_agencyId d1 = ds_agencyId d2 then 0.1 else 0)
             + (if ds_accessibility d1 = ''api'' \<and> ds_accessibility d2 = ''api'' then 0.15 else 0))\<bar>
        \<le> (0.3 * real (length (filter (\<lambda>d. d \<in> set domains2) domains1))
             + 0.2 * real (length (filter (\<lambda>k.
                     \<exists>k2 \<in> set keywords2. str_includes k2 k \<or> str_includes k k2) keywords1))
             + 0.25 * real (length (filter (\<lambda>t. t \<in> tag_name ` set (ds_tags d2))
                     (map tag_name (ds_tags d1))))
             + (if ds_agencyId d1 = ds_agencyId d2 then 0.1 else 0)
             + (if ds_accessibility d1 = ''api'' \<and> ds_accessibility d2 = ''api'' then 0.15 else 0))
           / 2 ^ 50
     \<and> (distinct domains1 \<longrightarrow>
          length (filter (\<lambda>d. d \<in> set domains2) domains1) = card (set domains1 \<inter> set domains2))
     \<and> (distinct keywords1 \<longrightarrow>
          length (filter (\<lambda>k. \<exists>k2 \<in> set keywords2. str_includes k2 k \<or> str_includes k k2) keywords1)
            = card {k \<in> set keywords1. \<exists>k2 \<in> set keywords2. str_includes k2 k \<or> str_includes k k2})
     \<and> (distinct (map tag_name (ds_tags d1)) \<longrightarrow>
          length (filter (\<lambda>t. t \<in> tag_name ` set (ds_tags d2)) (map tag_name (ds_tags d1)))
            = card (tag_name ` set (ds_tags d1) \<inter> tag_name ` set (ds_tags d2)))
     \<and> (distinct domains1 \<and> distinct keywords1 \<and> distinct (map tag_name (ds_tags d1)) \<longrightarrow>
          \<bar>s - spec_similarity domains1 domains2 keywords1 keywords2 d1 d2\<bar>
            \<le> spec_similarity domains1 domains2 keywords1 keywords2 d1 d2 / 2 ^ 50)"
proof -
  let ?a = "length (filter (\<lambda>d. d \<in> set domains2) domains1)"
  let ?b = "length (filter (\<lambda>k.
              \<exists>k2 \<in> set keywords2. str_includes k2 k \<or> str_includes k k2) keywords1)"
  let ?c = "length (filter (\<lambda>t. t \<in> tag_name ` set (ds_tags d2)) (map tag_name (ds_tags d1)))"
  let ?agency = "ds_agencyId d1 = ds_agencyId d2"
  let ?api = "ds_accessibility d1 = ''api'' \<and> ds_accessibility d2 = ''api''"
  let ?s = "let similarity3 = fadd (fadd (fadd 0 (fmul (real ?a) (lit 0.3))) (fmul (real ?b) (lit 0.2)))
                                (fmul (real ?c) (lit 0.25));
                similarity4 = (if ?agency then fadd similarity3 (lit 0.1) else similarity3)
            in if ?api then fadd similarity4 (lit 0.15) else similarity4"
  let ?E = "0.3 * real ?a + 0.2 * real ?b + 0.25 * real ?c
            + (if ?agency then 0.1 else 0) + (if ?api then 0.15 else 0)"
  have v: "calculateSimilarity P d1 d2 = Inr ?s" by (rule calculateSimilarity_value [OF assms])
  have "approximates 7 ?s ?E" by (rule similarity_approximates)
  then have e: "\<bar>?s - ?E\<bar> \<le> ?E / 2 ^ 50" by (rule approximates_bound) simp
  have 1: "distinct domains1 \<longrightarrow> ?a = card (set domains1 \<inter> set domains2)"
    using count_inter [of domains1 "set domains2"] by blast
  have 2: "distinct keywords1 \<longrightarrow>
      ?b = card {k \<in> set keywords1. \<exists>k2 \<in> set keywords2. str_includes k2 k \<or> str_includes k k2}"
    using count_such [of keywords1
        "\<lambda>k. \<exists>k2 \<in> set keywords2. str_includes k2 k \<or> str_includes k k2"] by blast
  have 3: "distinct (map tag_name (ds_tags d1)) \<longrightarrow>
      ?c = card (tag_name ` set (ds_tags d1) \<inter> tag_name ` set (ds_tags d2))"
    using count_inter [of "map tag_name (ds_tags d1)" "tag_name ` set (ds_tags d2)"] by simp
  have 4: "distinct domains1 \<and> distinct keywords1 \<and> distinct (map tag_name (ds_tags d1)) \<longrightarrow>
          \<bar>?s - spec_similarity domains1 domains2 keywords1 keywords2 d1 d2\<bar>
            \<le> spec_similarity domains1 domains2 keywords1 keywords2 d1 d2 / 2 ^ 50"
  proof
    assume d: "distinct domains1 \<and> distinct keywords1 \<and> distinct (map tag_name (ds_tags d1))"
    then have "spec_similarity domains1 domains2 keywords1 keywords2 d1 d2 = ?E"
      by (intro spec_similarity_counts) simp_all
    with e show "\<bar>?s - spec_similarity domains1 domains2 keywords1 keywords2 d1 d2\<bar>
            \<le> spec_similarity domains1 domains2 keywords1 keywords2 d1 d2 / 2 ^ 50"
      by (simp only:)
  qed
  show ?thesis
    by (rule exI [of _ ?s]) (intro conjI v refl e 1 2 3 4)
qed

theorem calculateSimilarity_double_sum_witness:
  "sample_parse (or_empty_array (ds_domains dataset_D)) = Some [''health'', ''ageing'']
   \<and> sample_parse (or_empty_array (ds_domains dataset_E)) = Some [''health'']
   \<and> sample_parse (or_empty_array (ds_keywords dataset_D)) = Some [''labour'', ''labour market'']
   \<and> sample_parse (or_empty_array (ds_keywords dataset_E)) = Some [''labour force'']
   \<and> distinct [''health'', ''ageing''] \<and> distinct [''labour'', ''labour market'']
   \<and> distinct (map tag_name (ds_tags dataset_D))
   \<and> calculateSimilarity sample_parse dataset_D dataset_E = Inr (7656119366529843 / 9007199254740992)
   \<and> spec_similarity [''health'', ''ageing''] [''health''] [''labour'', ''labour market'']
        [''labour force''] dataset_D dataset_E = 17 / 20
   \<and> \<bar>7656119366529843 / 9007199254740992 - 17 / 20\<bar> \<le> (17 / 20 / 2 ^ 50 :: real)
   \<and> card (set [''health'', ''ageing''] \<inter> set [''health'']) = 1"
proof -
  note f = similarity_fields(1-4)
  have t: "distinct (map tag_name (ds_tags dataset_D))"
    by (simp add: dataset_D_def sample_dataset_def)
  have dd: "distinct [''health'', ''ageing'']" "distinct [''labour'', ''labour market'']" by simp_all
  from calculateSimilarity_double_sum [OF f] obtain s
    where s: "calculateSimilarity sample_parse dataset_D dataset_E = Inr s"
      and c: "distinct [''health'', ''ageing''] \<longrightarrow>
          length (filter (\<lambda>d. d \<in> set [''health'']) [''health'', ''ageing''])
            = card (set [''health'', ''ageing''] \<inter> set [''health''])"
      and e: "distinct [''health'', ''ageing''] \<and> distinct [''labour'', ''labour market'']
            \<and> distinct (map tag_name (ds_tags dataset_D)) \<longrightarrow>
          \<bar>s - spec_similarity [''health'', ''ageing''] [''health''] [''labour'', ''labour market'']
                 [''labour force''] dataset_D dataset_E\<bar>
            \<le> spec_similarity [''health'', ''ageing''] [''health''] [''labour'', ''labour market'']
                 [''labour force''] dataset_D dataset_E / 2 ^ 50"
    by (elim exE conjE)
  have v: "calculateSimilarity sample_parse dataset_D dataset_E = Inr (7656119366529843 / 9007199254740992)"
    by (rule similarity_samples(1))
  have sv: "s = 7656119366529843 / 9007199254740992" using s v by simp
  note x = spec_similarity_samples(1)
  have 1: "\<bar>7656119366529843 / 9007199254740992 - 17 / 20\<bar> \<le> (17 / 20 / 2 ^ 50 :: real)"
    using e dd t unfolding sv x by blast
  have "length (filter (\<lambda>d. d \<in> set [''health'']) [''health'', ''ageing''])
            = card (set [''health'', ''ageing''] \<inter> set [''health''])"
    using c dd(1) by (rule mp)
  then have 2: "card (set [''health'', ''ageing''] \<inter> set [''health'']) = 1" by simp
  show ?thesis using f dd t v x 1 2 by (intro conjI)
qed

text \<open>
  C6 as stated fails: for two datasets of one agency that share one keyword and nothing
  else the exact sum is 0.2 + 0.1 = 3/10, whereas the similarity is the double above it,
  0.30000000000000004, which passes the test \<open>similarity > 0.3\<close> of the same-domain
  recommendations that 3/10 would not pass.
\<close>

theorem calculateSimilarity_exact_sum_counterexample:
  "sample_parse (or_empty_array (ds_domains dataset_P)) = Some []
   \<and> sample_parse (or_empty_array (ds_domains dataset_Q)) = Some []
   \<and> sample_parse (or_empty_array (ds_keywords dataset_P)) = Some [''labour'']
   \<and> sample_parse (or_empty_array (ds_keywords dataset_Q)) = Some [''labour force'']
   \<and> ds_tags dataset_P = [] \<and> ds_tags dataset_Q = []
   \<and> ds_agencyId dataset_P = ds_agencyId dataset_Q
   \<and> ds_accessibility dataset_P \<noteq> ''api''
   \<and> spec_similarity [] [] [''labour''] [''labour force''] dataset_P dataset_Q = 3 / 10
   \<and> calculateSimilarity sample_parse dataset_P dataset_Q = Inr (1351079888211149 / 4503599627370496)
   \<and> (1351079888211149 / 4503599627370496 :: real) \<noteq> 3 / 10
   \<and> lit 0.3 < 1351079888211149 / 4503599627370496
   \<and> \<not> (0.3 :: real) < 3 / 10"
proof -
  have "ds_tags dataset_P = [] \<and> ds_tags dataset_Q = []
        \<and> ds_agencyId dataset_P = ds_agencyId dataset_Q \<and> ds_accessibility dataset_P \<noteq> ''api''"
    by (simp add: dataset_P_def dataset_Q_def sample_dataset_def)
  moreover have "lit 0.3 < 1351079888211149 / 4503599627370496"
    by (simp add: lit_values)
  ultimately show ?thesis
    by (simp add: similarity_fields similarity_samples spec_similarity_samples)
qed

end
